theory Spec2Isabelle
  imports Complex_Main
begin

section \<open>The target-word game: socket handler and game state\<close>

text \<open>
  The development embeds \<^verbatim>\<open>src/socket/handler.js\<close> (the function
  \<^verbatim>\<open>setupSocketHandlers\<close> with its closure variables) and
  \<^verbatim>\<open>src/game/state.js\<close> (the module-level variables the handler reads
  and writes through getters and setters).

  JavaScript runs one handler at a time, but an \<^verbatim>\<open>async\<close> handler gives the
  event loop back at every \<^verbatim>\<open>await\<close> of a remote call. Each handler is therefore
  cut at its awaits into segments. A segment is a function from the state at the moment
  it runs (and the reply of the remote call it waited for) to the new state, the list of
  effects it caused, and the remote call it is now waiting for, if any. Two semantics are
  built from the segments: \<open>step\<close>/\<open>run\<close>, where replies of remote calls are inputs
  like any other and may arrive in any order between other events, and the \<open>_run\<close>
  functions, where one handler is taken through all its awaits with nothing in between.

  \<^verbatim>\<open>console.log\<close> output is not modelled.
\<close>

subsection \<open>Values\<close>

type_synonym sid = string

type_synonym vector = "real list"

datatype role = Player1 | Player2 | Spectator

fun role_name :: "role \<Rightarrow> string" where
  "role_name Player1 = ''Player 1''"
| "role_name Player2 = ''Player 2''"
| "role_name Spectator = ''Spectator''"

text \<open>
  A similarity score is a JavaScript number that came out of \<^verbatim>\<open>JSON.parse\<close>: a finite
  value, or an infinity (the parse of a literal too large for a double). \<^verbatim>\<open>NaN\<close> is
  not the parse of any JSON text. \<open>js_gt\<close> is the comparison \<^verbatim>\<open>a > b\<close> on such numbers,
  \<open>js_le\<close> is \<^verbatim>\<open>a <= b\<close>.
\<close>

datatype jsnum = NegInf | Fin real | PosInf

fun js_gt :: "jsnum \<Rightarrow> jsnum \<Rightarrow> bool" where
  "js_gt NegInf _ = False"
| "js_gt (Fin a) NegInf = True"
| "js_gt (Fin a) (Fin b) = (a > b)"
| "js_gt (Fin a) PosInf = False"
| "js_gt PosInf PosInf = False"
| "js_gt PosInf _ = True"

fun js_le :: "jsnum \<Rightarrow> jsnum \<Rightarrow> bool" where
  "js_le NegInf _ = True"
| "js_le (Fin a) NegInf = False"
| "js_le (Fin a) (Fin b) = (a \<le> b)"
| "js_le (Fin a) PosInf = True"
| "js_le PosInf PosInf = True"
| "js_le PosInf _ = False"

record submission =
  expression :: string
  score :: jsnum

text \<open>
  The payload of a \<^verbatim>\<open>submit_expression\<close> event is whatever the client sent: a string,
  or any other value.
\<close>

datatype payload = Text string | NonText

text \<open>
  \<^verbatim>\<open>String.prototype.trim\<close> on the one-byte characters of \<open>string\<close>: it removes
  tab, line feed, vertical tab, form feed, carriage return, space and no-break space from
  both ends.
\<close>

definition is_ws :: "char \<Rightarrow> bool" where
  "is_ws c = (of_char c \<in> {9, 10, 11, 12, 13, 32, 160 :: nat})"

definition trim :: "string \<Rightarrow> string" where
  "trim s = rev (dropWhile is_ws (rev (dropWhile is_ws s)))"

subsection \<open>Objects used as dictionaries\<close>

text \<open>
  \<^verbatim>\<open>_playerSockets\<close> and \<^verbatim>\<open>playerSubmissions\<close> are plain objects keyed by socket
  id. A socket id is a string of twenty characters, never an array index, so
  \<^verbatim>\<open>Object.keys\<close> and \<^verbatim>\<open>Object.values\<close> list the entries in the order the keys were
  first written: an association list in that order. Writing an existing key replaces the
  value where it stands; writing a new key appends.
\<close>

fun obj_get :: "('k \<times> 'v) list \<Rightarrow> 'k \<Rightarrow> 'v option" where
  "obj_get [] k = None"
| "obj_get ((k', v) # kvs) k = (if k' = k then Some v else obj_get kvs k)"

fun obj_set :: "('k \<times> 'v) list \<Rightarrow> 'k \<Rightarrow> 'v \<Rightarrow> ('k \<times> 'v) list" where
  "obj_set [] k v = [(k, v)]"
| "obj_set ((k', v') # kvs) k v =
     (if k' = k then (k, v) # kvs else (k', v') # obj_set kvs k v)"

fun obj_delete :: "('k \<times> 'v) list \<Rightarrow> 'k \<Rightarrow> ('k \<times> 'v) list" where
  "obj_delete [] k = []"
| "obj_delete ((k', v) # kvs) k =
     (if k' = k then obj_delete kvs k else (k', v) # obj_delete kvs k)"

definition obj_keys :: "('k \<times> 'v) list \<Rightarrow> 'k list" where
  "obj_keys kvs = map fst kvs"

subsection \<open>The state\<close>

text \<open>
  The first four fields are the variables of \<^verbatim>\<open>state.js\<close> the handler uses
  (\<^verbatim>\<open>_player1\<close>, \<^verbatim>\<open>_player2\<close>, \<^verbatim>\<open>_gameActive\<close>, \<^verbatim>\<open>_playerSockets\<close>); the last four
  are the closure variables of \<^verbatim>\<open>setupSocketHandlers\<close>. The module's own
  \<^verbatim>\<open>_targetWord\<close>, \<^verbatim>\<open>_targetVector\<close>, \<^verbatim>\<open>_playerSubmissions\<close> and \<^verbatim>\<open>_currentPlayer\<close>
  are never written by the handler except by \<^verbatim>\<open>resetState\<close>, which empties them, and
  never read; they are left out. An entry of \<^verbatim>\<open>_playerSockets\<close> is
  \<^verbatim>\<open>{ id, role }\<close> with \<^verbatim>\<open>id\<close> equal to its key, so the value kept is the role.
\<close>

record game_state =
  player1 :: "sid option"
  player2 :: "sid option"
  gameActive :: bool
  playerSockets :: "(sid \<times> role) list"
  targetWord :: "string option"
  targetVector :: "vector option"
  playerSubmissions :: "(sid \<times> submission) list"
  wordList :: "string list"

definition MAX_PLAYERS :: nat where
  "MAX_PLAYERS = 2"

text \<open>Truthiness of a slot variable: \<^verbatim>\<open>null\<close> and the empty string are falsy.\<close>

fun truthy :: "sid option \<Rightarrow> bool" where
  "truthy None = False"
| "truthy (Some i) = (i \<noteq> [])"

definition resetState :: "game_state \<Rightarrow> game_state" where
  "resetState s =
     s\<lparr>player1 := None, player2 := None, gameActive := False, playerSockets := []\<rparr>"

definition addPlayerSocket :: "game_state \<Rightarrow> sid \<Rightarrow> role \<Rightarrow> game_state" where
  "addPlayerSocket s i r =
     (if i \<noteq> [] then s\<lparr>playerSockets := obj_set (playerSockets s) i r\<rparr> else s)"

definition removePlayerSocket :: "game_state \<Rightarrow> sid \<Rightarrow> game_state" where
  "removePlayerSocket s i = s\<lparr>playerSockets := obj_delete (playerSockets s) i\<rparr>"

text \<open>
  \<^verbatim>\<open>Object.values(state.getAllPlayerSockets()).filter(p => p.role !== 'Spectator')\<close>
\<close>

definition activePlayers :: "game_state \<Rightarrow> (sid \<times> role) list" where
  "activePlayers s = filter (\<lambda>p. snd p \<noteq> Spectator) (playerSockets s)"

subsection \<open>Effects and suspended handlers\<close>

datatype 'a outcome = Failed string | Got 'a

text \<open>
  A remote call either gives the value the handler asks for (\<open>Got\<close>) or it fails
  (\<open>Failed\<close>, with the text that ends up in the error message): the request threw, or
  the response lacks the field, which the handlers turn into a throw caught by the same
  \<^verbatim>\<open>catch\<close>.
\<close>

datatype call =
    GetWords
  | GetEmbedding string
  | CalculateVector string
  | CompareToTarget "string option" vector

datatype shown_score = Fixed4 jsnum | NA

record result_entry =
  res_role :: string
  res_expression :: string
  res_score :: shown_score

datatype event =
    ErrorMessage string
  | AssignRole role
  | WaitingForPlayer
  | SpectatorInProgress "string option" "(sid \<times> submission) list"
  | SpectatorWaiting
  | GameStart "string option" "(sid \<times> role) list"
  | PlayerSubmitted role string
  | PlayerLeft string
  | GameOver string "result_entry list" "string option"
  | GameOverNoTarget string "result_entry list"
  | GameReset string

datatype effect = Broadcast event | Unicast sid event | Request call

text \<open>
  What a suspended handler still holds: \<^verbatim>\<open>startGame\<close> and \<^verbatim>\<open>fetchWordList\<close> keep no
  locals across their awaits; the submit handler keeps \<^verbatim>\<open>playerId\<close>, the role of the
  \<^verbatim>\<open>playerInfo\<close> it read on entry, and \<^verbatim>\<open>expression\<close>.
\<close>

datatype pending =
    AwaitInitWords
  | AwaitWords
  | AwaitEmbedding
  | AwaitCalc sid role string
  | AwaitCompare sid role string

type_synonym outp = "game_state \<times> effect list \<times> pending option"

subsection \<open>fetchWordList and startGame\<close>

definition fetchWordList_done :: "game_state \<Rightarrow> string list outcome \<Rightarrow> game_state" where
  "fetchWordList_done s reply =
     (case reply of
        Got ws \<Rightarrow> (if length ws > 0 then s\<lparr>wordList := ws\<rparr> else s\<lparr>wordList := []\<rparr>)
      | Failed _ \<Rightarrow> s\<lparr>wordList := []\<rparr>)"

text \<open>
  Lines 69 to 82 of the handler: the second check of the word list, the choice of the
  target and the request for its embedding. \<^verbatim>\<open>Math.floor(Math.random() * n)\<close> is some
  index below \<open>n\<close>; the draw is the parameter \<open>r\<close>, taken modulo \<open>n\<close>.
\<close>

definition startGame_choose :: "game_state \<Rightarrow> nat \<Rightarrow> outp" where
  "startGame_choose s r =
     (if length (wordList s) = 0 then
        (s\<lparr>gameActive := False\<rparr>,
         [Broadcast (ErrorMessage ''Server error: Could not load word list to start game.'')],
         None)
      else
        (let w = wordList s ! (r mod length (wordList s))
         in (s\<lparr>targetWord := Some w\<rparr>, [Request (GetEmbedding w)], Some AwaitEmbedding)))"

definition startGame :: "game_state \<Rightarrow> nat \<Rightarrow> outp" where
  "startGame s r =
     (let s1 = s\<lparr>gameActive := True, playerSubmissions := []\<rparr>
      in if length (wordList s1) = 0 then (s1, [Request GetWords], Some AwaitWords)
         else startGame_choose s1 r)"

definition startGame_afterWords :: "game_state \<Rightarrow> string list outcome \<Rightarrow> nat \<Rightarrow> outp" where
  "startGame_afterWords s reply r = startGame_choose (fetchWordList_done s reply) r"

definition startGame_afterEmbedding :: "game_state \<Rightarrow> vector outcome \<Rightarrow> outp" where
  "startGame_afterEmbedding s reply =
     (case reply of
        Got v \<Rightarrow>
          (s\<lparr>targetVector := Some v\<rparr>,
           [Broadcast (GameStart (targetWord s) (activePlayers s))],
           None)
      | Failed _ \<Rightarrow>
          (s\<lparr>targetWord := None, targetVector := None, gameActive := False\<rparr>,
           [Broadcast (ErrorMessage
              (''Server error starting game: Could not get embedding for target word ''
                @ [CHR 0x22] @ ''null'' @ [CHR 0x22] @ ''.''))],
           None))"

subsection \<open>endGame\<close>

text \<open>
  The body of the \<^verbatim>\<open>forEach\<close> over \<^verbatim>\<open>Object.keys(playerSubmissions)\<close>, with the three
  variables it updates: \<^verbatim>\<open>winnerId\<close>, \<^verbatim>\<open>bestScore\<close> and \<^verbatim>\<open>results\<close>. A stored
  submission always has a number as its score, so the test
  \<^verbatim>\<open>sub && typeof sub.score === 'number'\<close> is the test that the key has an entry.
\<close>

definition player_label :: "(sid \<times> role) list \<Rightarrow> sid \<Rightarrow> string" where
  "player_label sockets i =
     (case obj_get sockets i of
        Some r \<Rightarrow> role_name r
      | None \<Rightarrow> ''Player ('' @ take 4 i @ '')'')"

fun tally ::
  "(sid \<times> role) list \<Rightarrow> (sid \<times> submission) list \<Rightarrow> sid list \<Rightarrow>
   sid option \<times> jsnum \<times> result_entry list \<Rightarrow> sid option \<times> jsnum \<times> result_entry list"
where
  "tally sockets subs [] acc = acc"
| "tally sockets subs (i # ids) (winnerId, bestScore, results) =
     (case obj_get subs i of
        Some sub \<Rightarrow>
          tally sockets subs ids
            (if js_gt (score sub) bestScore then Some i else winnerId,
             if js_gt (score sub) bestScore then score sub else bestScore,
             results @ [\<lparr>res_role = player_label sockets i,
                         res_expression = expression sub,
                         res_score = Fixed4 (score sub)\<rparr>])
      | None \<Rightarrow>
          tally sockets subs ids
            (winnerId, bestScore,
             results @ [\<lparr>res_role = player_label sockets i,
                         res_expression = ''(No submission)'',
                         res_score = NA\<rparr>]))"

text \<open>
  The \<^verbatim>\<open>forEach\<close> of \<^verbatim>\<open>endGame\<close> seen entry by entry: \<open>scored_entry\<close> is the
  element it pushes on \<^verbatim>\<open>results\<close> for a stored submission, \<open>pick\<close> is what it does
  to \<^verbatim>\<open>winnerId\<close> and \<^verbatim>\<open>bestScore\<close>.
\<close>

definition scored_entry :: "(sid \<times> role) list \<Rightarrow> sid \<times> submission \<Rightarrow> result_entry" where
  "scored_entry sockets p =
     \<lparr>res_role = player_label sockets (fst p),
      res_expression = expression (snd p),
      res_score = Fixed4 (score (snd p))\<rparr>"

definition pick :: "sid option \<times> jsnum \<Rightarrow> sid \<times> submission \<Rightarrow> sid option \<times> jsnum" where
  "pick wb p = (if js_gt (score (snd p)) (snd wb) then (Some (fst p), score (snd p)) else wb)"

definition winnerMsg :: "(sid \<times> role) list \<Rightarrow> sid option \<Rightarrow> string" where
  "winnerMsg sockets winnerId =
     (let winnerInfo =
        (case winnerId of
           None \<Rightarrow> None
         | Some w \<Rightarrow> (if truthy (Some w) then obj_get sockets w else None))
      in case winnerInfo of
           Some r \<Rightarrow> role_name r @ '' wins!''
         | None \<Rightarrow> ''It's a tie or no valid scores!'')"

definition endGame :: "game_state \<Rightarrow> game_state \<times> effect list" where
  "endGame s =
     (if \<not> gameActive s then (s, [])
      else
        (let s1 = s\<lparr>gameActive := False\<rparr>
         in case targetVector s1 of
              None \<Rightarrow>
                (s1, [Broadcast (GameOverNoTarget
                        ''Error determining winner: Missing target vector.'' [])])
            | Some _ \<Rightarrow>
                (case tally (playerSockets s1) (playerSubmissions s1)
                        (obj_keys (playerSubmissions s1)) (None, NegInf, []) of
                   (winnerId, bestScore, results) \<Rightarrow>
                     (s1\<lparr>targetWord := None, targetVector := None, playerSubmissions := []\<rparr>,
                      [Broadcast (GameOver (winnerMsg (playerSockets s1) winnerId) results
                                    (targetWord s1))]))))"

subsection \<open>The connection handler\<close>

definition assignRole :: "game_state \<Rightarrow> sid \<Rightarrow> game_state \<times> role" where
  "assignRole s i =
     (let playerCount = length (activePlayers s)
      in if playerCount < MAX_PLAYERS \<and> \<not> truthy (player1 s) then
           (addPlayerSocket (s\<lparr>player1 := Some i\<rparr>) i Player1, Player1)
         else if playerCount < MAX_PLAYERS \<and> \<not> truthy (player2 s) then
           (addPlayerSocket (s\<lparr>player2 := Some i\<rparr>) i Player2, Player2)
         else
           (addPlayerSocket s i Spectator, Spectator))"

text \<open>
  \<^verbatim>\<open>startGame()\<close> is called without \<^verbatim>\<open>await\<close>: it runs up to its first await, and
  the connection handler then ends, since nothing follows the call.
\<close>

definition connection :: "game_state \<Rightarrow> sid \<Rightarrow> nat \<Rightarrow> outp" where
  "connection s i r =
     (case assignRole s i of
        (s1, assignedRole) \<Rightarrow>
          (let playerCount = length (activePlayers s1)
           in if playerCount = MAX_PLAYERS \<and> \<not> gameActive s1 then
                (case startGame s1 r of
                   (s2, fx, p) \<Rightarrow> (s2, Unicast i (AssignRole assignedRole) # fx, p))
              else if playerCount < MAX_PLAYERS \<and> assignedRole \<noteq> Spectator then
                (s1, [Unicast i (AssignRole assignedRole), Unicast i WaitingForPlayer], None)
              else if assignedRole = Spectator then
                (if gameActive s1 then
                   (s1, [Unicast i (AssignRole assignedRole),
                         Unicast i (SpectatorInProgress (targetWord s1) (playerSubmissions s1))],
                    None)
                 else
                   (s1, [Unicast i (AssignRole assignedRole), Unicast i SpectatorWaiting], None))
              else
                (s1, [Unicast i (AssignRole assignedRole)], None)))"

subsection \<open>The disconnect handler\<close>

definition disconnect :: "game_state \<Rightarrow> sid \<Rightarrow> game_state \<times> effect list" where
  "disconnect s i =
     (case obj_get (playerSockets s) i of
        None \<Rightarrow> (s, [])
      | Some r \<Rightarrow>
          (let wasActiveGame = gameActive s;
               s1 = (if r = Player1 then s\<lparr>player1 := None\<rparr> else s);
               s2 = (if r = Player2 then s1\<lparr>player2 := None\<rparr> else s1);
               s3 = removePlayerSocket s2 i
           in if r \<noteq> Spectator \<and> wasActiveGame then
                (case endGame s3 of
                   (s4, fx) \<Rightarrow>
                     (s4, Broadcast (PlayerLeft (role_name r @ '' disconnected. Game over.''))
                          # fx))
              else (s3, [])))"

subsection \<open>The submit\_expression handler\<close>

text \<open>The validations on entry, up to the first remote call.\<close>

definition submit_expression :: "game_state \<Rightarrow> sid \<Rightarrow> payload \<Rightarrow> outp" where
  "submit_expression s playerId pl =
     (if \<not> gameActive s then
        (s, [Unicast playerId (ErrorMessage ''Game is not active.'')], None)
      else case obj_get (playerSockets s) playerId of
        None \<Rightarrow> (s, [Unicast playerId (ErrorMessage ''Spectators cannot submit.'')], None)
      | Some r \<Rightarrow>
          (if r = Spectator then
             (s, [Unicast playerId (ErrorMessage ''Spectators cannot submit.'')], None)
           else if obj_get (playerSubmissions s) playerId \<noteq> None then
             (s, [Unicast playerId
                    (ErrorMessage ''You have already submitted for this round.'')], None)
           else case pl of
             NonText \<Rightarrow>
               (s, [Unicast playerId (ErrorMessage ''Invalid expression submitted.'')], None)
           | Text e \<Rightarrow>
               (if e = [] \<or> length (trim e) = 0 then
                  (s, [Unicast playerId (ErrorMessage ''Invalid expression submitted.'')], None)
                else if targetVector s = None then
                  (s, [Unicast playerId
                         (ErrorMessage ''Cannot submit: Target word not set correctly.'')], None)
                else
                  (s, [Request (CalculateVector e)], Some (AwaitCalc playerId r e)))))"

text \<open>After \<^verbatim>\<open>/calculate-vector\<close> has answered.\<close>

definition submit_afterCalc ::
  "game_state \<Rightarrow> sid \<Rightarrow> role \<Rightarrow> string \<Rightarrow> vector outcome \<Rightarrow> outp" where
  "submit_afterCalc s playerId r e reply =
     (case reply of
        Failed msg \<Rightarrow>
          (s, [Unicast playerId
                 (ErrorMessage (''Server error calculating your expression: '' @ msg))], None)
      | Got calculatedVector \<Rightarrow>
          (s, [Request (CompareToTarget (targetWord s) calculatedVector)],
           Some (AwaitCompare playerId r e)))"

text \<open>After \<^verbatim>\<open>/compare-to-target\<close> has answered: steps 4 to 6 of the handler.\<close>

definition submit_afterCompare ::
  "game_state \<Rightarrow> sid \<Rightarrow> role \<Rightarrow> string \<Rightarrow> jsnum outcome \<Rightarrow> outp" where
  "submit_afterCompare s playerId r e reply =
     (case reply of
        Failed msg \<Rightarrow>
          (s, [Unicast playerId
                 (ErrorMessage (''Server error comparing your result: '' @ msg))], None)
      | Got similarityScore \<Rightarrow>
          (let s1 = s\<lparr>playerSubmissions :=
                        obj_set (playerSubmissions s) playerId
                          \<lparr>expression = e, score = similarityScore\<rparr>\<rparr>;
               currentPlayers = activePlayers s1
           in if length (obj_keys (playerSubmissions s1)) = length currentPlayers then
                (case endGame s1 of
                   (s2, fx) \<Rightarrow> (s2, Broadcast (PlayerSubmitted r e) # fx, None))
              else (s1, [Broadcast (PlayerSubmitted r e)], None)))"

subsection \<open>The force\_reset handler\<close>

definition force_reset :: "game_state \<Rightarrow> sid \<Rightarrow> game_state \<times> effect list" where
  "force_reset s i =
     ((resetState s)\<lparr>targetWord := None, targetVector := None, playerSubmissions := []\<rparr>,
      [Broadcast (GameReset (''Game manually reset by '' @ i @ ''. Waiting for players...''))])"

subsection \<open>The server as a transition system\<close>

text \<open>
  \<^verbatim>\<open>setupSocketHandlers\<close> resets the state, empties the closure variables and starts
  one \<^verbatim>\<open>fetchWordList\<close>, which is still waiting when the function returns.
\<close>

definition init_state :: game_state where
  "init_state =
     \<lparr>player1 = None, player2 = None, gameActive = False, playerSockets = [],
      targetWord = None, targetVector = None, playerSubmissions = [], wordList = []\<rparr>"

type_synonym server = "game_state \<times> pending list"

definition init_server :: server where
  "init_server = (init_state, [AwaitInitWords])"

datatype reply =
    WordsReply "string list outcome"
  | VectorReply "vector outcome"
  | NumberReply "jsnum outcome"

text \<open>
  The inputs of the server: the four socket events, and the arrival of the reply to the
  \<open>k\<close>-th remote call still outstanding. \<open>Connect\<close> and \<open>Resume\<close> carry the draw of
  \<^verbatim>\<open>Math.random\<close> that \<^verbatim>\<open>startGame\<close> makes if it gets to choose a word.
\<close>

datatype input =
    Connect sid nat
  | Disconnect sid
  | SubmitExpression sid payload
  | ForceReset sid
  | Resume nat reply nat

text \<open>A reply of the wrong kind for the call that is waiting does not occur: \<open>None\<close>.\<close>

fun resume :: "game_state \<Rightarrow> pending \<Rightarrow> reply \<Rightarrow> nat \<Rightarrow> outp option" where
  "resume s AwaitInitWords (WordsReply w) r = Some (fetchWordList_done s w, [], None)"
| "resume s AwaitWords (WordsReply w) r = Some (startGame_afterWords s w r)"
| "resume s AwaitEmbedding (VectorReply v) r = Some (startGame_afterEmbedding s v)"
| "resume s (AwaitCalc i ro e) (VectorReply v) r = Some (submit_afterCalc s i ro e v)"
| "resume s (AwaitCompare i ro e) (NumberReply n) r = Some (submit_afterCompare s i ro e n)"
| "resume s _ _ r = None"

definition enqueue :: "pending list \<Rightarrow> pending option \<Rightarrow> pending list" where
  "enqueue ps p = (case p of None \<Rightarrow> ps | Some q \<Rightarrow> ps @ [q])"

fun step :: "server \<Rightarrow> input \<Rightarrow> server \<times> effect list" where
  "step (s, ps) (Connect i r) =
     (case connection s i r of (s', fx, p) \<Rightarrow> ((s', enqueue ps p), fx))"
| "step (s, ps) (Disconnect i) =
     (case disconnect s i of (s', fx) \<Rightarrow> ((s', ps), fx))"
| "step (s, ps) (SubmitExpression i pl) =
     (case submit_expression s i pl of (s', fx, p) \<Rightarrow> ((s', enqueue ps p), fx))"
| "step (s, ps) (ForceReset i) =
     (case force_reset s i of (s', fx) \<Rightarrow> ((s', ps), fx))"
| "step (s, ps) (Resume k rep r) =
     (if k < length ps then
        (case resume s (ps ! k) rep r of
           None \<Rightarrow> ((s, ps), [])
         | Some (s', fx, p) \<Rightarrow> ((s', enqueue (take k ps @ drop (Suc k) ps) p), fx))
      else ((s, ps), []))"

fun run :: "server \<Rightarrow> input list \<Rightarrow> server \<times> effect list" where
  "run sv [] = (sv, [])"
| "run sv (x # xs) =
     (case step sv x of
        (sv', fx) \<Rightarrow> (case run sv' xs of (sv'', fx') \<Rightarrow> (sv'', fx @ fx')))"

definition state_after :: "input list \<Rightarrow> game_state" where
  "state_after xs = fst (fst (run init_server xs))"

definition effects_of :: "input list \<Rightarrow> effect list" where
  "effects_of xs = snd (run init_server xs)"

subsection \<open>Handlers taken through their awaits without interruption\<close>

text \<open>
  \<open>startGame_run\<close> is \<^verbatim>\<open>startGame\<close> from its call to its return when no other event is
  handled while it waits; \<open>w\<close> and \<open>v\<close> are the replies its remote calls get if it
  makes them. \<open>submit_run\<close> is the same for the submit handler.
\<close>

definition startGame_embedding :: "outp \<Rightarrow> vector outcome \<Rightarrow> game_state \<times> effect list" where
  "startGame_embedding out v =
     (case out of
        (s, fx, Some AwaitEmbedding) \<Rightarrow>
          (case startGame_afterEmbedding s v of (s', fx', _) \<Rightarrow> (s', fx @ fx'))
      | (s, fx, _) \<Rightarrow> (s, fx))"

definition startGame_run ::
  "game_state \<Rightarrow> nat \<Rightarrow> string list outcome \<Rightarrow> vector outcome \<Rightarrow> game_state \<times> effect list"
where
  "startGame_run s r w v =
     (case startGame s r of
        (s1, fx1, Some AwaitWords) \<Rightarrow>
          (case startGame_embedding (startGame_afterWords s1 w r) v of
             (s2, fx2) \<Rightarrow> (s2, fx1 @ fx2))
      | out \<Rightarrow> startGame_embedding out v)"

definition submit_run ::
  "game_state \<Rightarrow> sid \<Rightarrow> payload \<Rightarrow> vector outcome \<Rightarrow> jsnum outcome \<Rightarrow>
   game_state \<times> effect list"
where
  "submit_run s i pl c k =
     (case submit_expression s i pl of
        (s1, fx1, Some (AwaitCalc i1 r1 e1)) \<Rightarrow>
          (case submit_afterCalc s1 i1 r1 e1 c of
             (s2, fx2, Some (AwaitCompare i2 r2 e2)) \<Rightarrow>
               (case submit_afterCompare s2 i2 r2 e2 k of
                  (s3, fx3, _) \<Rightarrow> (s3, fx1 @ fx2 @ fx3))
           | (s2, fx2, _) \<Rightarrow> (s2, fx1 @ fx2))
      | (s1, fx1, _) \<Rightarrow> (s1, fx1))"

text \<open>
  Events handled one after the other, each to its end. The first fetch of the word list,
  started when the server is set up, ends at some moment of its own: \<open>InitialWords\<close>.
\<close>

datatype whole_event =
    Connected sid nat "string list outcome" "vector outcome"
  | Disconnected sid
  | Submitted sid payload "vector outcome" "jsnum outcome"
  | Reset sid
  | InitialWords "string list outcome"

definition connection_run ::
  "game_state \<Rightarrow> sid \<Rightarrow> nat \<Rightarrow> string list outcome \<Rightarrow> vector outcome \<Rightarrow>
   game_state \<times> effect list"
where
  "connection_run s i r w v =
     (case connection s i r of
        (s1, fx1, Some AwaitWords) \<Rightarrow>
          (case startGame_embedding (startGame_afterWords s1 w r) v of
             (s2, fx2) \<Rightarrow> (s2, fx1 @ fx2))
      | out \<Rightarrow> startGame_embedding out v)"

fun handle :: "game_state \<Rightarrow> whole_event \<Rightarrow> game_state \<times> effect list" where
  "handle s (Connected i r w v) = connection_run s i r w v"
| "handle s (Disconnected i) = disconnect s i"
| "handle s (Submitted i pl c k) = submit_run s i pl c k"
| "handle s (Reset i) = force_reset s i"
| "handle s (InitialWords w) = (fetchWordList_done s w, [])"

fun handle_all :: "game_state \<Rightarrow> whole_event list \<Rightarrow> game_state" where
  "handle_all s [] = s"
| "handle_all s (x # xs) = handle_all (fst (handle s x)) xs"

subsection \<open>What the specification asks of the winner\<close>

text \<open>
  The specification's words: the winner is the arg-max over the submissions by score,
  ties going to the first participant in iteration order. \<open>spec_winner\<close> is the first
  entry whose score no other entry exceeds.
\<close>

definition top_score :: "(sid \<times> submission) list \<Rightarrow> sid \<times> submission \<Rightarrow> bool" where
  "top_score subs p = (\<forall>q \<in> set subs. js_le (score (snd q)) (score (snd p)))"

definition spec_winner :: "(sid \<times> submission) list \<Rightarrow> sid option" where
  "spec_winner subs = map_option fst (find (top_score subs) subs)"

text \<open>The round invariant of the specification.\<close>

definition round_ok :: "game_state \<Rightarrow> bool" where
  "round_ok s = (gameActive s \<longrightarrow> targetWord s \<noteq> None \<and> targetVector s \<noteq> None)"

text \<open>The specification's \<^verbatim>\<open>activeCount()\<close>: the participants holding a slot role.\<close>

definition activeCount :: "game_state \<Rightarrow> nat" where
  "activeCount s = length (activePlayers s)"

text \<open>
  The specification's count for finalization: the participants holding the role of
  Player 1 or Player 2, observers left out.
\<close>

definition slot_holders :: "game_state \<Rightarrow> (sid \<times> role) list" where
  "slot_holders s = filter (\<lambda>p. snd p = Player1 \<or> snd p = Player2) (playerSockets s)"

text \<open>The round-over broadcast, in either of the two forms \<^verbatim>\<open>endGame\<close> emits.\<close>

fun is_game_over :: "effect \<Rightarrow> bool" where
  "is_game_over (Broadcast (GameOver _ _ _)) = True"
| "is_game_over (Broadcast (GameOverNoTarget _ _)) = True"
| "is_game_over _ = False"

text \<open>
  The calls of \<^verbatim>\<open>startGame\<close> that are suspended: those waiting for the word list or for
  the embedding. \<open>pending_after\<close> lists the remote calls outstanding after the inputs
  \<open>xs\<close>. \<open>start_inv\<close> is what holds of the server at every moment: an active round has
  its target word unless a \<^verbatim>\<open>startGame\<close> is still waiting for the word list, and has its
  target vector unless a \<^verbatim>\<open>startGame\<close> is still waiting for either reply.
\<close>

fun start_pending :: "pending \<Rightarrow> bool" where
  "start_pending AwaitWords = True"
| "start_pending AwaitEmbedding = True"
| "start_pending _ = False"

definition pending_after :: "input list \<Rightarrow> pending list" where
  "pending_after xs = snd (fst (run init_server xs))"

definition start_inv :: "server \<Rightarrow> bool" where
  "start_inv sv =
     ((gameActive (fst sv) \<and> AwaitWords \<notin> set (snd sv) \<longrightarrow> targetWord (fst sv) \<noteq> None) \<and>
      (gameActive (fst sv) \<and> \<not> list_ex start_pending (snd sv) \<longrightarrow>
         targetVector (fst sv) \<noteq> None))"

subsection \<open>Sample data\<close>

definition idA :: sid where
  "idA = ''Zx3kQ9vLmT2aB7cAAAAB''"

definition idB :: sid where
  "idB = ''h8Jw0PqRs5TuVyXcAAAD''"

definition idC :: sid where
  "idC = ''m4NnB2dFgH6jK8LpAAAF''"

text \<open>Two players seated, no round running, word list not yet loaded.\<close>

definition seated :: game_state where
  "seated =
     \<lparr>player1 = Some idA, player2 = Some idB, gameActive = False,
      playerSockets = [(idA, Player1), (idB, Player2)],
      targetWord = None, targetVector = None, playerSubmissions = [], wordList = []\<rparr>"

text \<open>A round on the word ocean, nobody has submitted yet.\<close>

definition playing :: game_state where
  "playing =
     \<lparr>player1 = Some idA, player2 = Some idB, gameActive = True,
      playerSockets = [(idA, Player1), (idB, Player2)],
      targetWord = Some ''ocean'', targetVector = Some [1, 0, 0],
      playerSubmissions = [], wordList = [''ocean'']\<rparr>"

text \<open>One submission in: the first player's, scored 0.81.\<close>

definition one_in :: game_state where
  "one_in =
     playing\<lparr>playerSubmissions := [(idA, \<lparr>expression = ''sea'', score = Fin (81 / 100)\<rparr>)]\<rparr>"

text \<open>Both submissions in with equal scores, the second player's stored first.\<close>

definition tied :: game_state where
  "tied =
     playing\<lparr>playerSubmissions :=
       [(idB, \<lparr>expression = ''rock'', score = Fin (1 / 2)\<rparr>),
        (idA, \<lparr>expression = ''sea'', score = Fin (1 / 2)\<rparr>)]\<rparr>"

text \<open>
  The word list arrives, two players connect, the round starts on ocean, the first
  player submits and is scored 0.81, then the second player disconnects.
\<close>

definition trace_leave :: "input list" where
  "trace_leave =
     [Resume 0 (WordsReply (Got [''ocean''])) 0,
      Connect idA 0,
      Connect idB 0,
      Resume 0 (VectorReply (Got [1, 0, 0])) 0,
      SubmitExpression idA (Text ''sea''),
      Resume 0 (VectorReply (Got [9 / 10, 1 / 10, 0])) 0,
      Resume 0 (NumberReply (Got (Fin (81 / 100)))) 0,
      Disconnect idB]"


text \<open>The round over: flag false, target and submissions cleared, both players seated.\<close>

definition finished :: game_state where
  "finished = playing\<lparr>gameActive := False, targetWord := None, targetVector := None\<rparr>"

text \<open>The round announced as active while its target vector has not arrived yet.\<close>

definition starting :: game_state where
  "starting = playing\<lparr>targetVector := None\<rparr>"



text \<open>
  The second player disconnects while \<^verbatim>\<open>startGame\<close> is waiting for the embedding of the
  target word.
\<close>

definition trace_early_leave :: "input list" where
  "trace_early_leave =
     [Resume 0 (WordsReply (Got [''ocean''])) 0,
      Connect idA 0,
      Connect idB 0,
      Disconnect idB]"

text \<open>The words arrive, two players connect, the embedding arrives.\<close>

definition trace_started :: "input list" where
  "trace_started =
     [Resume 0 (WordsReply (Got [''ocean''])) 0,
      Connect idA 0,
      Connect idB 0,
      Resume 0 (VectorReply (Got [1, 0, 0])) 0]"

text \<open>Unfolding the handlers on given inputs.\<close>

lemmas handler_defs =
  init_server_def init_state_def state_after_def effects_of_def enqueue_def
  connection_def assignRole_def addPlayerSocket_def removePlayerSocket_def activePlayers_def
  MAX_PLAYERS_def startGame_def startGame_choose_def startGame_afterWords_def
  startGame_afterEmbedding_def fetchWordList_done_def endGame_def winnerMsg_def
  player_label_def obj_keys_def disconnect_def submit_expression_def submit_afterCalc_def
  submit_afterCompare_def force_reset_def resetState_def trim_def is_ws_def
  idA_def idB_def idC_def Let_def

lemmas run_defs = connection_run_def startGame_run_def startGame_embedding_def submit_run_def

section \<open>Properties\<close>

subsection \<open>Objects\<close>

lemma filter_obj_set_le:
  "length (filter P (obj_set kvs k v)) \<le> Suc (length (filter P kvs))"
  by (induction kvs) auto

lemma filter_obj_set_out:
  "\<not> P (k, v) \<Longrightarrow> length (filter P (obj_set kvs k v)) \<le> length (filter P kvs)"
  by (induction kvs) auto

lemma filter_obj_delete_le:
  "length (filter P (obj_delete kvs k)) \<le> length (filter P kvs)"
  by (induction kvs) (auto simp: le_SucI)




subsection \<open>What each segment leaves alone\<close>

lemma endGame_inactive: "\<not> gameActive (fst (endGame s))"
  by (simp add: endGame_def Let_def split: option.splits prod.splits)

lemma endGame_sockets: "playerSockets (fst (endGame s)) = playerSockets s"
  by (simp add: endGame_def Let_def split: option.splits prod.splits)


lemma endGame_active_over: "gameActive s \<Longrightarrow> list_ex is_game_over (snd (endGame s))"
  by (simp add: endGame_def Let_def split: option.splits prod.splits)

lemma startGame_choose_sockets: "playerSockets (fst (startGame_choose s r)) = playerSockets s"
  by (simp add: startGame_choose_def Let_def)

lemma startGame_sockets: "playerSockets (fst (startGame s r)) = playerSockets s"
  by (simp add: startGame_def Let_def startGame_choose_sockets)

lemma fetch_sockets: "playerSockets (fetchWordList_done s w) = playerSockets s"
  by (simp add: fetchWordList_done_def split: outcome.splits)

lemma afterWords_sockets: "playerSockets (fst (startGame_afterWords s w r)) = playerSockets s"
  by (simp add: startGame_afterWords_def startGame_choose_sockets fetch_sockets)

lemma afterEmbedding_sockets:
  "playerSockets (fst (startGame_afterEmbedding s v)) = playerSockets s"
  by (simp add: startGame_afterEmbedding_def split: outcome.splits)

lemma submit_expression_state: "fst (submit_expression s i pl) = s"
  by (simp add: submit_expression_def split: option.splits payload.splits)

lemma submit_expression_cases:
  "(\<exists>msg. submit_expression s i pl = (s, [Unicast i (ErrorMessage msg)], None)) \<or>
   (\<exists>r e. submit_expression s i pl = (s, [Request (CalculateVector e)], Some (AwaitCalc i r e)))"
  by (simp add: submit_expression_def split: option.splits payload.splits)

lemma afterCalc_state: "fst (submit_afterCalc s i r e c) = s"
  by (simp add: submit_afterCalc_def split: outcome.splits)

lemma afterCompare_sockets:
  "playerSockets (fst (submit_afterCompare s i r e k)) = playerSockets s"
  by (simp add: submit_afterCompare_def Let_def case_prod_beta endGame_sockets
           split: outcome.splits)

lemma resume_sockets:
  "resume s p rep r = Some out \<Longrightarrow> playerSockets (fst out) = playerSockets s"
  by (cases "(s, p, rep, r)" rule: resume.cases)
     (auto simp: fetch_sockets afterWords_sockets afterEmbedding_sockets afterCalc_state
                 afterCompare_sockets)

subsection \<open>Slots\<close>

lemma addPlayerSocket_count:
  "activeCount (addPlayerSocket s i r) \<le> Suc (activeCount s)"
  using filter_obj_set_le [of "\<lambda>p. snd p \<noteq> Spectator" "playerSockets s" i r]
  by (simp add: addPlayerSocket_def activeCount_def activePlayers_def)

lemma addPlayerSocket_spectator_count:
  "activeCount (addPlayerSocket s i Spectator) \<le> activeCount s"
  using filter_obj_set_out [of "\<lambda>p. snd p \<noteq> Spectator" i Spectator "playerSockets s"]
  by (simp add: addPlayerSocket_def activeCount_def activePlayers_def)

lemma activeCount_slots:
  "activeCount (s\<lparr>player1 := x\<rparr>) = activeCount s"
  "activeCount (s\<lparr>player2 := y\<rparr>) = activeCount s"
  by (simp_all add: activeCount_def activePlayers_def)

lemma assignRole_count:
  assumes a: "activeCount s \<le> MAX_PLAYERS"
  shows "activeCount (fst (assignRole s i)) \<le> MAX_PLAYERS"
proof -
  have one: "activeCount (addPlayerSocket (s\<lparr>player1 := Some i\<rparr>) i Player1) \<le> MAX_PLAYERS"
    if "activeCount s < MAX_PLAYERS"
    using that addPlayerSocket_count [of "s\<lparr>player1 := Some i\<rparr>" i Player1]
    by (simp add: activeCount_slots)
  have two: "activeCount (addPlayerSocket (s\<lparr>player2 := Some i\<rparr>) i Player2) \<le> MAX_PLAYERS"
    if "activeCount s < MAX_PLAYERS"
    using that addPlayerSocket_count [of "s\<lparr>player2 := Some i\<rparr>" i Player2]
    by (simp add: activeCount_slots)
  have three: "activeCount (addPlayerSocket s i Spectator) \<le> MAX_PLAYERS"
    using a addPlayerSocket_spectator_count [of s i] by simp
  show ?thesis
    unfolding assignRole_def Let_def activeCount_def [symmetric]
    using one two three by simp
qed

lemma connection_count:
  "activeCount s \<le> MAX_PLAYERS \<Longrightarrow> activeCount (fst (connection s i r)) \<le> MAX_PLAYERS"
proof -
  assume "activeCount s \<le> MAX_PLAYERS"
  then have a: "activeCount (fst (assignRole s i)) \<le> MAX_PLAYERS" by (rule assignRole_count)
  have "playerSockets (fst (connection s i r)) = playerSockets (fst (assignRole s i))"
    by (simp add: connection_def Let_def case_prod_beta startGame_sockets)
  then show ?thesis using a by (simp add: activeCount_def activePlayers_def)
qed

lemma disconnect_count:
  "activeCount s \<le> MAX_PLAYERS \<Longrightarrow> activeCount (fst (disconnect s i)) \<le> MAX_PLAYERS"
proof -
  assume a: "activeCount s \<le> MAX_PLAYERS"
  let ?P = "\<lambda>p::sid \<times> role. snd p \<noteq> Spectator"
  have "playerSockets (fst (disconnect s i)) = playerSockets s \<or>
        playerSockets (fst (disconnect s i)) = obj_delete (playerSockets s) i"
    by (simp add: disconnect_def Let_def case_prod_beta endGame_sockets removePlayerSocket_def
             split: option.splits)
  then show ?thesis
    using a filter_obj_delete_le [of ?P "playerSockets s" i]
    by (auto simp: activeCount_def activePlayers_def)
qed

lemma step_count:
  "activeCount (fst sv) \<le> MAX_PLAYERS \<Longrightarrow> activeCount (fst (fst (step sv x))) \<le> MAX_PLAYERS"
proof (cases sv)
  case (Pair s ps)
  assume a: "activeCount (fst sv) \<le> MAX_PLAYERS"
  show ?thesis
  proof (cases x)
    case (Connect i r)
    then show ?thesis using a Pair connection_count [of s i r] by (simp add: case_prod_beta)
  next
    case (Disconnect i)
    then show ?thesis using a Pair disconnect_count [of s i] by (simp add: case_prod_beta)
  next
    case (SubmitExpression i pl)
    then show ?thesis using a Pair submit_expression_state [of s i pl]
      by (simp add: case_prod_beta)
  next
    case (ForceReset i)
    then show ?thesis using Pair
      by (simp add: force_reset_def resetState_def activeCount_def activePlayers_def)
  next
    case (Resume k rep r)
    show ?thesis
    proof (cases "k < length ps")
      case False
      then show ?thesis using a Pair Resume by simp
    next
      case True
      show ?thesis
      proof (cases "resume s (ps ! k) rep r")
        case None
        then show ?thesis using a Pair Resume True by simp
      next
        case (Some out)
        then have "playerSockets (fst out) = playerSockets s" by (rule resume_sockets)
        then show ?thesis using a Pair Resume True Some
          by (simp add: case_prod_beta activeCount_def activePlayers_def)
      qed
    qed
  qed
qed

lemma run_count:
  "activeCount (fst sv) \<le> MAX_PLAYERS \<Longrightarrow> activeCount (fst (fst (run sv xs))) \<le> MAX_PLAYERS"
proof (induction xs arbitrary: sv)
  case Nil
  then show ?case by simp
next
  case (Cons x xs)
  from Cons.prems have "activeCount (fst (fst (step sv x))) \<le> MAX_PLAYERS" by (rule step_count)
  then have "activeCount (fst (fst (run (fst (step sv x)) xs))) \<le> MAX_PLAYERS"
    by (rule Cons.IH)
  then show ?case by (simp add: case_prod_beta)
qed

lemma assignRole_full:
  "(truthy (player1 s) \<and> truthy (player2 s)) \<or> activeCount s = MAX_PLAYERS \<Longrightarrow>
   snd (assignRole s i) = Spectator"
  by (auto simp: assignRole_def Let_def activeCount_def)

lemma connection_first_effect:
  "hd (fst (snd (connection s i r))) = Unicast i (AssignRole (snd (assignRole s i)))"
  by (simp add: connection_def Let_def case_prod_beta)

text \<open>
  C3. Whatever inputs the server has handled, in whatever order (connects, disconnects,
  submits, resets, replies of remote calls), at most two entries of the role table are
  not spectators. And a participant who connects when both slot variables are set, or
  when the table already counts two slot-holders, is told it is a spectator.
\<close>

theorem at_most_two_slot_holders:
  "activeCount (state_after xs) \<le> MAX_PLAYERS \<and>
   ((truthy (player1 s) \<and> truthy (player2 s)) \<or> activeCount s = MAX_PLAYERS \<longrightarrow>
      hd (fst (snd (connection s i r))) = Unicast i (AssignRole Spectator))"
proof -
  have "activeCount (fst init_server) \<le> MAX_PLAYERS"
    by (simp add: init_server_def init_state_def activeCount_def activePlayers_def)
  then have "activeCount (state_after xs) \<le> MAX_PLAYERS"
    unfolding state_after_def by (rule run_count)
  then show ?thesis
    using assignRole_full [of s i] connection_first_effect [of s i r] by simp
qed

theorem at_most_two_slot_holders_witness:
  "truthy (player1 playing) \<and> truthy (player2 playing) \<and>
   hd (fst (snd (connection playing idC 0))) = Unicast idC (AssignRole Spectator)"
  using at_most_two_slot_holders [of "[]" playing idC 0]
  by (simp add: playing_def idA_def idB_def)

subsection \<open>Finalization from the submit path\<close>

lemma slot_holders_active: "activePlayers s = slot_holders s"
proof -
  have "(\<lambda>p::sid \<times> role. snd p \<noteq> Spectator) = (\<lambda>p. snd p = Player1 \<or> snd p = Player2)"
  proof
    fix p :: "sid \<times> role"
    show "(snd p \<noteq> Spectator) = (snd p = Player1 \<or> snd p = Player2)"
      by (cases "snd p") simp_all
  qed
  then show ?thesis by (simp add: activePlayers_def slot_holders_def)
qed

lemma submit_expression_active:
  "submit_expression s i pl = (s', fx, Some p) \<Longrightarrow> gameActive s"
  by (auto simp: submit_expression_def split: if_splits option.splits payload.splits)

lemma afterCompare_exact:
  "submit_afterCompare s i r e (Got sc) =
     (if length (obj_set (playerSubmissions s) i \<lparr>expression = e, score = sc\<rparr>)
           = length (slot_holders s)
      then (fst (endGame (s\<lparr>playerSubmissions :=
                   obj_set (playerSubmissions s) i \<lparr>expression = e, score = sc\<rparr>\<rparr>)),
            Broadcast (PlayerSubmitted r e) #
            snd (endGame (s\<lparr>playerSubmissions :=
                   obj_set (playerSubmissions s) i \<lparr>expression = e, score = sc\<rparr>\<rparr>)),
            None)
      else (s\<lparr>playerSubmissions :=
                   obj_set (playerSubmissions s) i \<lparr>expression = e, score = sc\<rparr>\<rparr>,
            [Broadcast (PlayerSubmitted r e)], None))"
proof -
  have "activePlayers (s\<lparr>playerSubmissions :=
          obj_set (playerSubmissions s) i \<lparr>expression = e, score = sc\<rparr>\<rparr>) = slot_holders s"
    by (simp add: slot_holders_active slot_holders_def)
  then show ?thesis
    by (simp add: submit_afterCompare_def Let_def obj_keys_def case_prod_beta)
qed

lemma afterCompare_over:
  assumes "gameActive s"
  shows "list_ex is_game_over (fst (snd (submit_afterCompare s i r e (Got sc)))) =
     (length (obj_set (playerSubmissions s) i \<lparr>expression = e, score = sc\<rparr>)
        = length (slot_holders s))"
proof -
  let ?s1 = "s\<lparr>playerSubmissions :=
                 obj_set (playerSubmissions s) i \<lparr>expression = e, score = sc\<rparr>\<rparr>"
  have "gameActive ?s1" using assms by simp
  then have "list_ex is_game_over (snd (endGame ?s1))" by (rule endGame_active_over)
  then show ?thesis by (simp add: afterCompare_exact)
qed

lemma submit_run_over:
  "list_ex is_game_over (snd (submit_run s i pl c k)) =
     (\<exists>ro e u sc.
        submit_expression s i pl = (s, [Request (CalculateVector e)], Some (AwaitCalc i ro e)) \<and>
        c = Got u \<and> k = Got sc \<and>
        length (obj_set (playerSubmissions s) i \<lparr>expression = e, score = sc\<rparr>)
          = length (slot_holders s))"
proof -
  from submit_expression_cases [of s i pl] show ?thesis
  proof
    assume "\<exists>msg. submit_expression s i pl = (s, [Unicast i (ErrorMessage msg)], None)"
    then show ?thesis by (auto simp: submit_run_def)
  next
    assume "\<exists>r e. submit_expression s i pl =
              (s, [Request (CalculateVector e)], Some (AwaitCalc i r e))"
    then obtain ro e where se:
      "submit_expression s i pl = (s, [Request (CalculateVector e)], Some (AwaitCalc i ro e))"
      by blast
    then have act: "gameActive s" by (rule submit_expression_active)
    show ?thesis
    proof (cases c)
      case (Failed m)
      then show ?thesis using se by (simp add: submit_run_def submit_afterCalc_def)
    next
      case cg: (Got u)
      show ?thesis
      proof (cases k)
        case (Failed m)
        then show ?thesis using se cg
          by (simp add: submit_run_def submit_afterCalc_def submit_afterCompare_def)
      next
        case (Got sc)
        have "snd (submit_run s i pl c k) =
                [Request (CalculateVector e), Request (CompareToTarget (targetWord s) u)] @
                fst (snd (submit_afterCompare s i ro e (Got sc)))"
          using se cg Got by (simp add: submit_run_def submit_afterCalc_def case_prod_beta)
        then show ?thesis using afterCompare_over [OF act, of i ro e sc] se cg Got by simp
      qed
    qed
  qed
qed

text \<open>
  C4. The segment of the submit handler that runs when the score arrives stores the
  submission and then calls \<^verbatim>\<open>endGame\<close> on the state with the submission stored exactly
  when the number of stored submissions equals the number of participants holding the
  role of Player 1 or Player 2; otherwise it only announces the submission. So, with the
  round active, the round-over event is broadcast exactly when the two numbers agree,
  and a submission handled without interruption ends the round exactly when it passes
  the entry checks, both remote calls succeed and the two numbers agree.
\<close>

theorem finalization_iff_all_submitted:
  "submit_afterCompare s i r e (Got sc) =
     (if length (obj_set (playerSubmissions s) i \<lparr>expression = e, score = sc\<rparr>)
           = length (slot_holders s)
      then (fst (endGame (s\<lparr>playerSubmissions :=
                   obj_set (playerSubmissions s) i \<lparr>expression = e, score = sc\<rparr>\<rparr>)),
            Broadcast (PlayerSubmitted r e) #
            snd (endGame (s\<lparr>playerSubmissions :=
                   obj_set (playerSubmissions s) i \<lparr>expression = e, score = sc\<rparr>\<rparr>)),
            None)
      else (s\<lparr>playerSubmissions :=
                   obj_set (playerSubmissions s) i \<lparr>expression = e, score = sc\<rparr>\<rparr>,
            [Broadcast (PlayerSubmitted r e)], None))
   \<and> (gameActive s \<longrightarrow>
        list_ex is_game_over (fst (snd (submit_afterCompare s i r e (Got sc)))) =
          (length (obj_set (playerSubmissions s) i \<lparr>expression = e, score = sc\<rparr>)
             = length (slot_holders s)))
   \<and> list_ex is_game_over (snd (submit_run s i pl c k)) =
       (\<exists>ro e' u sc'.
          submit_expression s i pl =
            (s, [Request (CalculateVector e')], Some (AwaitCalc i ro e')) \<and>
          c = Got u \<and> k = Got sc' \<and>
          length (obj_set (playerSubmissions s) i \<lparr>expression = e', score = sc'\<rparr>)
            = length (slot_holders s))"
  using afterCompare_exact [of s i r e sc] afterCompare_over [of s i r e sc]
        submit_run_over [of s i pl c k]
  by blast

theorem finalization_iff_all_submitted_witness:
  "gameActive one_in \<and>
   length (obj_set (playerSubmissions one_in) idB \<lparr>expression = ''rock'', score = Fin (22 / 100)\<rparr>)
     = length (slot_holders one_in) \<and>
   submit_afterCompare one_in idB Player2 ''rock'' (Got (Fin (22 / 100))) =
     (finished,
      [Broadcast (PlayerSubmitted Player2 ''rock''),
       Broadcast (GameOver ''Player 1 wins!''
         [\<lparr>res_role = ''Player 1'', res_expression = ''sea'',
           res_score = Fixed4 (Fin (81 / 100))\<rparr>,
          \<lparr>res_role = ''Player 2'', res_expression = ''rock'',
           res_score = Fixed4 (Fin (22 / 100))\<rparr>]
         (Some ''ocean''))],
      None) \<and>
   list_ex is_game_over
     (snd (submit_run one_in idB (Text ''rock'') (Got [0, 1, 0]) (Got (Fin (22 / 100))))) \<and>
   \<not> list_ex is_game_over
     (snd (submit_run playing idA (Text ''sea'') (Got [0, 1, 0]) (Got (Fin (81 / 100)))))"
  using finalization_iff_all_submitted
          [of one_in idB Player2 "''rock''" "Fin (22 / 100)" "Text ''rock''"
              "Got [0, 1, 0]" "Got (Fin (22 / 100))"]
  by (simp add: one_in_def playing_def finished_def slot_holders_def handler_defs run_defs)


subsection \<open>Failures of the remote calls of a submission\<close>

text \<open>
  C7. When the vector computation fails, or the comparison fails, the segment that gets
  the failure leaves the state as it finds it, sends one error to the submitter and asks
  for nothing more; a successful vector computation writes nothing either. So in a
  submission handled without interruption, if either call fails the state at the end is
  the state at the start, the last effect is an error sent to the submitter, and the same
  submission meets the same validations again.
\<close>

theorem submit_failure_commits_nothing:
  "submit_afterCalc s i r e (Failed m) =
     (s, [Unicast i (ErrorMessage (''Server error calculating your expression: '' @ m))], None)
   \<and> fst (submit_afterCalc s i r e (Got u)) = s
   \<and> submit_afterCompare s i r e (Failed m) =
     (s, [Unicast i (ErrorMessage (''Server error comparing your result: '' @ m))], None)
   \<and> ((c = Failed m \<or> k = Failed m) \<longrightarrow>
        fst (submit_run s i pl c k) = s
        \<and> (\<exists>msg. last (snd (submit_run s i pl c k)) = Unicast i (ErrorMessage msg))
        \<and> submit_expression (fst (submit_run s i pl c k)) i pl = submit_expression s i pl)"
proof -
  have a: "submit_afterCalc s i r e (Failed m) =
     (s, [Unicast i (ErrorMessage (''Server error calculating your expression: '' @ m))], None)"
    by (simp add: submit_afterCalc_def)
  have b: "fst (submit_afterCalc s i r e (Got u)) = s"
    by (simp add: submit_afterCalc_def)
  have c: "submit_afterCompare s i r e (Failed m) =
     (s, [Unicast i (ErrorMessage (''Server error comparing your result: '' @ m))], None)"
    by (simp add: submit_afterCompare_def)
  have d: "fst (submit_run s i pl c k) = s
        \<and> (\<exists>msg. last (snd (submit_run s i pl c k)) = Unicast i (ErrorMessage msg))"
    if "c = Failed m \<or> k = Failed m"
  proof -
    from submit_expression_cases [of s i pl] show ?thesis
    proof
      assume "\<exists>msg. submit_expression s i pl = (s, [Unicast i (ErrorMessage msg)], None)"
      then show ?thesis by (auto simp: submit_run_def)
    next
      assume "\<exists>r e. submit_expression s i pl =
                (s, [Request (CalculateVector e)], Some (AwaitCalc i r e))"
      then obtain r' e' where
        "submit_expression s i pl = (s, [Request (CalculateVector e')], Some (AwaitCalc i r' e'))"
        by blast
      with that show ?thesis
        by (cases c; cases k)
           (auto simp: submit_run_def submit_afterCalc_def submit_afterCompare_def)
    qed
  qed
  from a b c d show ?thesis by simp
qed

theorem submit_failure_commits_nothing_witness:
  "fst (submit_run playing idA (Text ''sea'') (Got [1, 0, 0]) (Failed ''timeout'')) = playing \<and>
   submit_expression playing idA (Text ''sea'') =
     (playing, [Request (CalculateVector ''sea'')], Some (AwaitCalc idA Player1 ''sea''))"
  using submit_failure_commits_nothing
          [of playing idA Player1 "''sea''" "''timeout''" "[1, 0, 0]"
              "Got [1, 0, 0]" "Failed ''timeout''" "Text ''sea''"]
  by (simp add: submit_expression_def playing_def idA_def idB_def trim_def is_ws_def)

subsection \<open>Starting a round without words\<close>

lemma startGame_choose_empty:
  "wordList s = [] \<Longrightarrow> startGame_choose s r =
     (s\<lparr>gameActive := False\<rparr>,
      [Broadcast (ErrorMessage ''Server error: Could not load word list to start game.'')], None)"
  by (simp add: startGame_choose_def)

lemma fetch_none: "w = Got [] \<or> w = Failed m \<Longrightarrow> fetchWordList_done s w = s\<lparr>wordList := []\<rparr>"
  by (auto simp: fetchWordList_done_def)

text \<open>
  C8. When \<^verbatim>\<open>startGame\<close> is called with an empty word list it asks for the words, once.
  If the reply brings none (an empty list, or a failure), the continuation, in whatever
  state it runs, only empties the word list, clears the active flag and broadcasts the
  failure. Taken without interruption, \<^verbatim>\<open>startGame\<close> makes that one request and that
  one broadcast and ends in the state it started from with the active flag false and the
  submissions emptied: target word, target vector, both slots and the role table are as
  they were.
\<close>

theorem startGame_aborts_without_words:
  assumes "wordList s = []" and "w = Got [] \<or> w = Failed m"
  shows "startGame s r =
           (s\<lparr>gameActive := True, playerSubmissions := []\<rparr>, [Request GetWords], Some AwaitWords)
       \<and> startGame_afterWords s' w r =
           (s'\<lparr>wordList := [], gameActive := False\<rparr>,
            [Broadcast (ErrorMessage ''Server error: Could not load word list to start game.'')],
            None)
       \<and> startGame_run s r w v =
           (s\<lparr>gameActive := False, playerSubmissions := []\<rparr>,
            [Request GetWords,
             Broadcast (ErrorMessage ''Server error: Could not load word list to start game.'')])"
proof -
  have a: "startGame s r =
           (s\<lparr>gameActive := True, playerSubmissions := []\<rparr>, [Request GetWords], Some AwaitWords)"
    using assms(1) by (simp add: startGame_def Let_def)
  have b: "\<And>t. startGame_afterWords t w r =
           (t\<lparr>wordList := [], gameActive := False\<rparr>,
            [Broadcast (ErrorMessage ''Server error: Could not load word list to start game.'')],
            None)"
    using assms(2) by (simp add: startGame_afterWords_def fetch_none [of w m] startGame_choose_empty)
  have c: "startGame_run s r w v =
           (s\<lparr>gameActive := False, playerSubmissions := []\<rparr>,
            [Request GetWords,
             Broadcast (ErrorMessage ''Server error: Could not load word list to start game.'')])"
    using assms(1) by (simp add: startGame_run_def a b startGame_embedding_def)
  show ?thesis using a b c by simp
qed

theorem startGame_aborts_without_words_witness:
  "wordList seated = [] \<and>
   startGame_run seated 0 (Got []) (Got [1, 0, 0]) =
     (seated,
      [Request GetWords,
       Broadcast (ErrorMessage ''Server error: Could not load word list to start game.'')])"
  using startGame_aborts_without_words [of seated "Got []" "[]" 0 seated "Got [1, 0, 0]"]
  by (simp add: seated_def)

subsection \<open>Ending a round that is not running\<close>

text \<open>
  C10. \<^verbatim>\<open>endGame\<close> called while the active flag is false returns the state it was given
  and emits nothing; and since \<^verbatim>\<open>endGame\<close> always leaves the flag false, a second call
  right after a first changes nothing and emits nothing.
\<close>

theorem endGame_noop_when_inactive:
  "(\<not> gameActive s \<longrightarrow> endGame s = (s, [])) \<and>
   endGame (fst (endGame s)) = (fst (endGame s), [])"
proof -
  have "\<not> gameActive s \<longrightarrow> endGame s = (s, [])"
    by (simp add: endGame_def)
  moreover have "endGame (fst (endGame s)) = (fst (endGame s), [])"
    using endGame_inactive [of s] by (simp add: endGame_def)
  ultimately show ?thesis by simp
qed

theorem endGame_noop_when_inactive_witness:
  "\<not> gameActive seated \<and> endGame seated = (seated, [])"
  using endGame_noop_when_inactive [of seated] by (simp add: seated_def)

subsection \<open>One submission per participant\<close>




























subsection \<open>The active flag and the target\<close>

text \<open>
  C1, as stated, fails: when the second player connects, \<^verbatim>\<open>startGame\<close> sets the active
  flag and then waits for the word list; the server is then in a state where the flag is
  true and neither target word nor target vector is set, and it handles other events in
  that state.
\<close>

theorem active_before_target_counterexample:
  "gameActive (state_after [Connect idA 0, Connect idB 0]) \<and>
   targetWord (state_after [Connect idA 0, Connect idB 0]) = None \<and>
   targetVector (state_after [Connect idA 0, Connect idB 0]) = None \<and>
   \<not> round_ok (state_after [Connect idA 0, Connect idB 0])"
  by (simp add: round_ok_def handler_defs)

lemma startGame_embedding_ok:
  "(p = Some AwaitEmbedding \<longrightarrow> targetWord s \<noteq> None) \<Longrightarrow>
   (p \<noteq> Some AwaitEmbedding \<longrightarrow> round_ok s) \<Longrightarrow>
   round_ok (fst (startGame_embedding (s, fx, p) v))"
  by (cases p; cases v)
     (auto simp: startGame_embedding_def startGame_afterEmbedding_def round_ok_def
           split: pending.splits)

lemma startGame_choose_ok:
  "startGame_choose s r = (s', fx, p) \<Longrightarrow>
   (p = Some AwaitEmbedding \<and> targetWord s' \<noteq> None) \<or> (p = None \<and> \<not> gameActive s')"
  by (auto simp: startGame_choose_def Let_def split: if_splits)

lemma startGame_ok:
  "startGame s r = (s', fx, p) \<Longrightarrow>
   (p = Some AwaitEmbedding \<and> targetWord s' \<noteq> None) \<or> (p = None \<and> \<not> gameActive s')
   \<or> p = Some AwaitWords"
  using startGame_choose_ok [of "s\<lparr>gameActive := True, playerSubmissions := []\<rparr>" r s' fx p]
  by (auto simp: startGame_def Let_def split: if_splits)

lemma after_start_ok:
  assumes "out = (s', fx, p)"
    and "(p = Some AwaitEmbedding \<and> targetWord s' \<noteq> None) \<or> (p = None \<and> \<not> gameActive s')"
  shows "round_ok (fst (startGame_embedding out v))"
  using assms startGame_embedding_ok [of p s' fx v] by (auto simp: round_ok_def)

lemma startGame_run_ok: "round_ok (fst (startGame_run s r w v))"
proof -
  obtain s1 fx1 p1 where st: "startGame s r = (s1, fx1, p1)" by (cases "startGame s r")
  from startGame_ok [OF st] consider
      (emb) "(p1 = Some AwaitEmbedding \<and> targetWord s1 \<noteq> None) \<or> (p1 = None \<and> \<not> gameActive s1)"
    | (words) "p1 = Some AwaitWords" by blast
  then show ?thesis
  proof cases
    case emb
    then have "round_ok (fst (startGame_embedding (s1, fx1, p1) v))"
      using after_start_ok by blast
    then show ?thesis using emb st by (auto simp: startGame_run_def)
  next
    case words
    obtain s2 fx2 p2 where aw: "startGame_afterWords s1 w r = (s2, fx2, p2)"
      by (cases "startGame_afterWords s1 w r")
    then have "startGame_choose (fetchWordList_done s1 w) r = (s2, fx2, p2)"
      by (simp add: startGame_afterWords_def)
    then have "(p2 = Some AwaitEmbedding \<and> targetWord s2 \<noteq> None) \<or> (p2 = None \<and> \<not> gameActive s2)"
      by (rule startGame_choose_ok)
    then have "round_ok (fst (startGame_embedding (s2, fx2, p2) v))"
      using after_start_ok by blast
    then show ?thesis using words st aw by (simp add: startGame_run_def case_prod_beta)
  qed
qed

lemma assignRole_round:
  "gameActive (fst (assignRole s i)) = gameActive s \<and>
   targetWord (fst (assignRole s i)) = targetWord s \<and>
   targetVector (fst (assignRole s i)) = targetVector s"
  by (simp add: assignRole_def Let_def addPlayerSocket_def)

lemma assignRole_ok: "round_ok s \<Longrightarrow> round_ok (fst (assignRole s i))"
  using assignRole_round [of s i] by (simp add: round_ok_def)

lemma connection_run_ok:
  assumes "round_ok s"
  shows "round_ok (fst (connection_run s i r w v))"
proof -
  obtain s1 ro where ar: "assignRole s i = (s1, ro)" by (cases "assignRole s i")
  have ok1: "round_ok s1" using assignRole_ok [OF assms, of i] ar by simp
  show ?thesis
  proof (cases "length (activePlayers s1) = MAX_PLAYERS \<and> \<not> gameActive s1")
    case True
    obtain s2 fx p where st: "startGame s1 r = (s2, fx, p)" by (cases "startGame s1 r")
    have c: "connection s i r = (s2, Unicast i (AssignRole ro) # fx, p)"
      using ar True st by (simp add: connection_def Let_def)
    have "fst (connection_run s i r w v) = fst (startGame_run s1 r w v)"
      unfolding connection_run_def startGame_run_def c st
      by (cases p rule: option.exhaust; simp add: startGame_embedding_def case_prod_beta
            split: pending.splits option.splits)
    then show ?thesis using startGame_run_ok [of s1 r w v] by simp
  next
    case False
    then have "\<exists>fx. connection s i r = (s1, fx, None)"
      using ar by (auto simp: connection_def Let_def)
    then obtain fx where "connection s i r = (s1, fx, None)" by blast
    then show ?thesis using ok1 by (simp add: connection_run_def startGame_embedding_def)
  qed
qed

lemma endGame_ok: "round_ok (fst (endGame s))"
  using endGame_inactive [of s] by (simp add: round_ok_def)

lemma disconnect_ok: "round_ok s \<Longrightarrow> round_ok (fst (disconnect s i))"
proof (cases "obj_get (playerSockets s) i")
  case None
  assume "round_ok s"
  then show ?thesis using None by (simp add: disconnect_def)
next
  case (Some ro)
  assume ok: "round_ok s"
  let ?s3 = "removePlayerSocket
               (if ro = Player2
                then (if ro = Player1 then s\<lparr>player1 := None\<rparr> else s)\<lparr>player2 := None\<rparr>
                else (if ro = Player1 then s\<lparr>player1 := None\<rparr> else s)) i"
  have "round_ok ?s3" using ok by (simp add: round_ok_def removePlayerSocket_def)
  then show ?thesis using Some endGame_ok [of ?s3]
    by (simp add: disconnect_def Let_def case_prod_beta)
qed

lemma afterCompare_ok: "round_ok s \<Longrightarrow> round_ok (fst (submit_afterCompare s i r e k))"
proof (cases k)
  case (Failed m)
  assume "round_ok s"
  then show ?thesis using Failed by (simp add: submit_afterCompare_def)
next
  case (Got sc)
  assume ok: "round_ok s"
  let ?s1 = "s\<lparr>playerSubmissions :=
                 obj_set (playerSubmissions s) i \<lparr>expression = e, score = sc\<rparr>\<rparr>"
  have "round_ok ?s1" using ok by (simp add: round_ok_def)
  then show ?thesis using Got endGame_ok [of ?s1]
    by (simp add: submit_afterCompare_def Let_def case_prod_beta)
qed

lemma submit_run_ok:
  assumes "round_ok s"
  shows "round_ok (fst (submit_run s i pl c k))"
proof -
  from submit_expression_cases [of s i pl] show ?thesis
  proof
    assume "\<exists>msg. submit_expression s i pl = (s, [Unicast i (ErrorMessage msg)], None)"
    then show ?thesis using assms by (auto simp: submit_run_def)
  next
    assume "\<exists>r e. submit_expression s i pl =
              (s, [Request (CalculateVector e)], Some (AwaitCalc i r e))"
    then obtain r' e' where se:
      "submit_expression s i pl = (s, [Request (CalculateVector e')], Some (AwaitCalc i r' e'))"
      by blast
    show ?thesis
    proof (cases c)
      case (Failed m)
      then show ?thesis using assms se by (simp add: submit_run_def submit_afterCalc_def)
    next
      case (Got u)
      then show ?thesis using se afterCompare_ok [OF assms, of i r' e' k]
        by (simp add: submit_run_def submit_afterCalc_def case_prod_beta)
    qed
  qed
qed

lemma handle_ok: "round_ok s \<Longrightarrow> round_ok (fst (handle s x))"
proof (cases x)
  case (Connected i r w v)
  assume "round_ok s"
  then show ?thesis using Connected by (simp add: connection_run_ok)
next
  case (Disconnected i)
  assume "round_ok s"
  then show ?thesis using Disconnected by (simp add: disconnect_ok)
next
  case (Submitted i pl c k)
  assume "round_ok s"
  then show ?thesis using Submitted by (simp add: submit_run_ok)
next
  case (Reset i)
  then show ?thesis by (simp add: force_reset_def resetState_def round_ok_def)
next
  case (InitialWords w)
  assume "round_ok s"
  then show ?thesis using InitialWords
    by (simp add: fetchWordList_done_def round_ok_def split: outcome.splits)
qed

lemma handle_all_ok: "round_ok s \<Longrightarrow> round_ok (handle_all s xs)"
  by (induction xs arbitrary: s) (simp_all add: handle_ok)

lemma inv_inactive: "\<not> gameActive s' \<Longrightarrow> start_inv (s', ps')"
  by (simp add: start_inv_def)

lemma inv_keep:
  assumes "start_inv (s, ps)"
    and "\<not> gameActive s' \<or>
         (gameActive s \<and> targetWord s' = targetWord s \<and> targetVector s' = targetVector s)"
    and "\<forall>q \<in> set ps. start_pending q \<longrightarrow> q \<in> set ps'"
  shows "start_inv (s', ps')"
proof (cases "gameActive s'")
  case False
  then show ?thesis by (rule inv_inactive)
next
  case True
  with assms(2) have same: "gameActive s" "targetWord s' = targetWord s"
    "targetVector s' = targetVector s" by simp_all
  have w: "AwaitWords \<notin> set ps' \<Longrightarrow> AwaitWords \<notin> set ps"
    using assms(3) by auto
  have n: "\<not> list_ex start_pending ps' \<Longrightarrow> \<not> list_ex start_pending ps"
    using assms(3) by (auto simp: list_ex_iff)
  show ?thesis
    using assms(1) same w n by (auto simp: start_inv_def)
qed

lemma inv_started:
  "(p = Some AwaitEmbedding \<and> targetWord s' \<noteq> None) \<or> (p = None \<and> \<not> gameActive s')
     \<or> p = Some AwaitWords \<Longrightarrow>
   start_inv (s', enqueue ps0 p)"
  by (auto simp: start_inv_def enqueue_def)

lemma set_without_nth:
  "k < length ps \<Longrightarrow> set ps = insert (ps ! k) (set (take k ps @ drop (Suc k) ps))"
proof -
  assume "k < length ps"
  then have "ps = take k ps @ ps ! k # drop (Suc k) ps" by (rule id_take_nth_drop)
  then have "set ps = set (take k ps @ ps ! k # drop (Suc k) ps)" by simp
  then show ?thesis by simp
qed

lemma kept_pending:
  assumes "k < length ps" and "\<not> start_pending (ps ! k)"
  shows "\<forall>q \<in> set ps. start_pending q \<longrightarrow> q \<in> set (enqueue (take k ps @ drop (Suc k) ps) p)"
proof
  fix q assume q: "q \<in> set ps"
  show "start_pending q \<longrightarrow> q \<in> set (enqueue (take k ps @ drop (Suc k) ps) p)"
  proof
    assume sp: "start_pending q"
    then have "q \<noteq> ps ! k" using assms(2) by auto
    then have "q \<in> set (take k ps @ drop (Suc k) ps)"
      using q set_without_nth [OF assms(1)] by auto
    then show "q \<in> set (enqueue (take k ps @ drop (Suc k) ps) p)"
      by (cases p) (simp_all add: enqueue_def)
  qed
qed

lemma kept_enqueue:
  "\<forall>q \<in> set ps. start_pending q \<longrightarrow> q \<in> set (enqueue ps p)"
  by (cases p) (simp_all add: enqueue_def)

lemma connection_round:
  "connection s i r = (s', fx, p) \<Longrightarrow>
   (p = None \<and> gameActive s' = gameActive s \<and> targetWord s' = targetWord s \<and>
      targetVector s' = targetVector s)
   \<or> (p = Some AwaitEmbedding \<and> targetWord s' \<noteq> None) \<or> (p = None \<and> \<not> gameActive s')
   \<or> p = Some AwaitWords"
proof -
  assume c: "connection s i r = (s', fx, p)"
  obtain s1 ro where ar: "assignRole s i = (s1, ro)" by (cases "assignRole s i")
  have r1: "gameActive s1 = gameActive s" "targetWord s1 = targetWord s"
    "targetVector s1 = targetVector s"
    using assignRole_round [of s i] ar by simp_all
  show ?thesis
  proof (cases "length (activePlayers s1) = MAX_PLAYERS \<and> \<not> gameActive s1")
    case True
    obtain s2 fx2 p2 where st: "startGame s1 r = (s2, fx2, p2)" by (cases "startGame s1 r")
    have "connection s i r = (s2, Unicast i (AssignRole ro) # fx2, p2)"
      using ar True st by (simp add: connection_def Let_def)
    then have "s' = s2" "p = p2" using c by simp_all
    then show ?thesis using startGame_ok [OF st] by blast
  next
    case False
    then have "\<exists>fx0. connection s i r = (s1, fx0, None)"
      using ar by (auto simp: connection_def Let_def)
    then have "s' = s1" "p = None" using c by auto
    then show ?thesis using r1 by simp
  qed
qed

lemma disconnect_round:
  "\<not> gameActive (fst (disconnect s i)) \<or>
   (gameActive s \<and> targetWord (fst (disconnect s i)) = targetWord s \<and>
    targetVector (fst (disconnect s i)) = targetVector s)"
proof (cases "obj_get (playerSockets s) i")
  case None
  then show ?thesis by (simp add: disconnect_def)
next
  case (Some ro)
  let ?s3 = "removePlayerSocket
               (if ro = Player2
                then (if ro = Player1 then s\<lparr>player1 := None\<rparr> else s)\<lparr>player2 := None\<rparr>
                else (if ro = Player1 then s\<lparr>player1 := None\<rparr> else s)) i"
  have e: "gameActive ?s3 = gameActive s" "targetWord ?s3 = targetWord s"
    "targetVector ?s3 = targetVector s"
    by (simp_all add: removePlayerSocket_def)
  have "fst (disconnect s i) = ?s3 \<or> fst (disconnect s i) = fst (endGame ?s3)"
    using Some by (simp add: disconnect_def Let_def case_prod_beta)
  then show ?thesis using e endGame_inactive [of ?s3] by auto
qed

lemma afterCompare_round:
  "\<not> gameActive (fst (submit_afterCompare s i r e k)) \<or>
   (gameActive s \<and> targetWord (fst (submit_afterCompare s i r e k)) = targetWord s \<and>
    targetVector (fst (submit_afterCompare s i r e k)) = targetVector s)"
proof (cases k)
  case (Failed m)
  then show ?thesis by (simp add: submit_afterCompare_def)
next
  case (Got sc)
  let ?s1 = "s\<lparr>playerSubmissions :=
                 obj_set (playerSubmissions s) i \<lparr>expression = e, score = sc\<rparr>\<rparr>"
  have "fst (submit_afterCompare s i r e k) = ?s1 \<or>
        fst (submit_afterCompare s i r e k) = fst (endGame ?s1)"
    using Got by (simp add: submit_afterCompare_def Let_def case_prod_beta)
  then show ?thesis using endGame_inactive [of ?s1] by auto
qed

lemma resume_inv:
  assumes inv: "start_inv (s, ps)" and k: "k < length ps"
    and res: "resume s (ps ! k) rep r = Some (s', fx, p)"
  shows "start_inv (s', enqueue (take k ps @ drop (Suc k) ps) p)"
proof (cases "ps ! k")
  case AwaitInitWords
  then obtain w where rep: "rep = WordsReply w" and s': "s' = fetchWordList_done s w"
    using res by (cases rep) auto
  have "gameActive s' = gameActive s \<and> targetWord s' = targetWord s \<and>
        targetVector s' = targetVector s"
    using s' by (simp add: fetchWordList_done_def split: outcome.splits)
  moreover have "\<not> start_pending (ps ! k)" using AwaitInitWords by simp
  ultimately show ?thesis using inv kept_pending [OF k] inv_keep by blast
next
  case AwaitWords
  then obtain w where "rep = WordsReply w" and "startGame_afterWords s w r = (s', fx, p)"
    using res by (cases rep) auto
  then have "startGame_choose (fetchWordList_done s w) r = (s', fx, p)"
    by (simp add: startGame_afterWords_def)
  then have "(p = Some AwaitEmbedding \<and> targetWord s' \<noteq> None) \<or> (p = None \<and> \<not> gameActive s')"
    by (rule startGame_choose_ok)
  then show ?thesis using inv_started by blast
next
  case AwaitEmbedding
  then obtain v where rep: "rep = VectorReply v"
    and out: "startGame_afterEmbedding s v = (s', fx, p)"
    using res by (cases rep) auto
  show ?thesis
  proof (cases v)
    case (Failed m)
    then have "\<not> gameActive s'" using out by (auto simp: startGame_afterEmbedding_def)
    then show ?thesis by (rule inv_inactive)
  next
    case (Got u)
    then have s': "s' = s\<lparr>targetVector := Some u\<rparr>" and p: "p = None"
      using out by (auto simp: startGame_afterEmbedding_def)
    have "AwaitWords \<notin> set (take k ps @ drop (Suc k) ps) \<Longrightarrow> AwaitWords \<notin> set ps"
      using set_without_nth [OF k] AwaitEmbedding by auto
    then show ?thesis using inv s' p by (auto simp: start_inv_def enqueue_def)
  qed
next
  case (AwaitCalc j ro e)
  then obtain v where "rep = VectorReply v" and out: "submit_afterCalc s j ro e v = (s', fx, p)"
    using res by (cases rep) auto
  then have "s' = s" using afterCalc_state [of s j ro e v] by simp
  moreover have "\<not> start_pending (ps ! k)" using AwaitCalc by simp
  ultimately show ?thesis using inv kept_pending [OF k] inv_keep by blast
next
  case (AwaitCompare j ro e)
  then obtain n where "rep = NumberReply n"
    and out: "submit_afterCompare s j ro e n = (s', fx, p)"
    using res by (cases rep) auto
  then have "\<not> gameActive s' \<or>
     (gameActive s \<and> targetWord s' = targetWord s \<and> targetVector s' = targetVector s)"
    using afterCompare_round [of s j ro e n] by simp
  moreover have "\<not> start_pending (ps ! k)" using AwaitCompare by simp
  ultimately show ?thesis using inv kept_pending [OF k] inv_keep by blast
qed

lemma step_inv: "start_inv sv \<Longrightarrow> start_inv (fst (step sv x))"
proof (cases sv)
  case (Pair s ps)
  assume "start_inv sv"
  then have inv: "start_inv (s, ps)" using Pair by simp
  show ?thesis
  proof (cases x)
    case (Connect i r)
    obtain s' fx p where c: "connection s i r = (s', fx, p)" by (cases "connection s i r")
    from connection_round [OF c] have "start_inv (s', enqueue ps p)"
    proof (elim disjE)
      assume a: "p = None \<and> gameActive s' = gameActive s \<and> targetWord s' = targetWord s \<and>
                 targetVector s' = targetVector s"
      then have "\<not> gameActive s' \<or>
         (gameActive s \<and> targetWord s' = targetWord s \<and> targetVector s' = targetVector s)"
        by auto
      then show ?thesis using inv kept_enqueue inv_keep by blast
    next
      assume "p = Some AwaitEmbedding \<and> targetWord s' \<noteq> None"
      then show ?thesis using inv_started by blast
    next
      assume "p = None \<and> \<not> gameActive s'"
      then show ?thesis using inv_started by blast
    next
      assume "p = Some AwaitWords"
      then show ?thesis using inv_started by blast
    qed
    then show ?thesis using Pair Connect c by simp
  next
    case (Disconnect i)
    have "start_inv (fst (disconnect s i), ps)"
      using inv disconnect_round [of s i] inv_keep [of s ps "fst (disconnect s i)" ps] by blast
    then show ?thesis using Pair Disconnect by (simp add: case_prod_beta)
  next
    case (SubmitExpression i pl)
    obtain s' fx p where c: "submit_expression s i pl = (s', fx, p)"
      by (cases "submit_expression s i pl")
    then have "s' = s" using submit_expression_state [of s i pl] by simp
    then have "start_inv (s', enqueue ps p)"
      using inv kept_enqueue inv_keep by blast
    then show ?thesis using Pair SubmitExpression c by simp
  next
    case (ForceReset i)
    then show ?thesis using Pair
      by (simp add: force_reset_def resetState_def start_inv_def)
  next
    case (Resume k rep r)
    show ?thesis
    proof (cases "k < length ps")
      case False
      then show ?thesis using inv Pair Resume by simp
    next
      case True
      show ?thesis
      proof (cases "resume s (ps ! k) rep r")
        case None
        then show ?thesis using inv Pair Resume True by simp
      next
        case (Some out)
        obtain s' fx p where o: "out = (s', fx, p)" by (cases out)
        then have "start_inv (s', enqueue (take k ps @ drop (Suc k) ps) p)"
          using resume_inv [OF inv True] Some by simp
        then show ?thesis using Pair Resume True Some o by simp
      qed
    qed
  qed
qed

lemma run_inv: "start_inv sv \<Longrightarrow> start_inv (fst (run sv xs))"
proof (induction xs arbitrary: sv)
  case Nil
  then show ?case by simp
next
  case (Cons x xs)
  from Cons.prems have "start_inv (fst (step sv x))" by (rule step_inv)
  then have "start_inv (fst (run (fst (step sv x)) xs))" by (rule Cons.IH)
  then show ?case by (simp add: case_prod_beta)
qed

lemma init_inv: "start_inv init_server"
  by (simp add: start_inv_def init_server_def init_state_def)

lemma quiet_round_ok:
  "\<not> list_ex start_pending (pending_after xs) \<Longrightarrow> round_ok (state_after xs)"
proof -
  assume q: "\<not> list_ex start_pending (pending_after xs)"
  have "start_inv (fst (run init_server xs))" using init_inv by (rule run_inv)
  moreover have "AwaitWords \<notin> set (pending_after xs)"
    using q by (auto simp: list_ex_iff)
  ultimately show ?thesis using q
    by (auto simp: start_inv_def round_ok_def pending_after_def state_after_def)
qed


text \<open>
  C1, amended. At every moment at which no call of \<^verbatim>\<open>startGame\<close> is suspended at a
  remote call (none is waiting for the word list or for the embedding), whatever inputs
  the server has handled and in whatever order the replies arrived, the active flag is
  true only if target word and target vector are both set. In particular this holds
  after any sequence of events each handled to its end, and \<^verbatim>\<open>startGame\<close> taken through
  its awaits without interruption ends in such a state whatever state it started from.
\<close>

theorem round_ok_between_handlers:
  "(\<not> list_ex start_pending (pending_after xs) \<longrightarrow> round_ok (state_after xs)) \<and>
   round_ok (handle_all init_state ys) \<and> round_ok (fst (startGame_run s r w v))"
proof -
  have "round_ok init_state" by (simp add: round_ok_def init_state_def)
  then show ?thesis using quiet_round_ok handle_all_ok startGame_run_ok by blast
qed

theorem round_ok_between_handlers_witness:
  "\<not> list_ex start_pending (pending_after trace_started) \<and>
   gameActive (state_after trace_started) \<and>
   targetWord (state_after trace_started) = Some ''ocean'' \<and>
   targetVector (state_after trace_started) = Some [1, 0, 0] \<and>
   gameActive (handle_all init_state
      [Connected idA 0 (Got []) (Got []), Connected idB 0 (Got [''ocean'']) (Got [1, 0, 0])]) \<and>
   targetWord (handle_all init_state
      [Connected idA 0 (Got []) (Got []), Connected idB 0 (Got [''ocean'']) (Got [1, 0, 0])])
     = Some ''ocean'' \<and>
   targetVector (handle_all init_state
      [Connected idA 0 (Got []) (Got []), Connected idB 0 (Got [''ocean'']) (Got [1, 0, 0])])
     = Some [1, 0, 0]"
  using round_ok_between_handlers
    [of trace_started
        "[Connected idA 0 (Got []) (Got []), Connected idB 0 (Got [''ocean'']) (Got [1, 0, 0])]"
        init_state 0 "Got []" "Got []"]
  by (simp add: round_ok_def trace_started_def pending_after_def handler_defs run_defs)

subsection \<open>The winner\<close>

lemma js_le_refl: "js_le a a"
  by (cases a) simp_all

lemma js_gt_le: "js_gt a b = (\<not> js_le a b)"
  by (cases a; cases b) auto

lemma js_le_trans: "js_le a b \<Longrightarrow> js_le b c \<Longrightarrow> js_le a c"
  by (cases a; cases b; cases c) simp_all

lemma js_le_total: "js_le a b \<or> js_le b a"
  by (cases a; cases b) auto

lemma js_gt_NegInf: "js_gt a NegInf = (a \<noteq> NegInf)"
  by (cases a) simp_all

lemma obj_get_distinct:
  "distinct (map fst kvs) \<Longrightarrow> (k, v) \<in> set kvs \<Longrightarrow> obj_get kvs k = Some v"
  by (induction kvs) (auto simp: image_iff)

lemma tally_entries:
  "distinct (map fst subs) \<Longrightarrow> set ys \<subseteq> set subs \<Longrightarrow>
   tally sockets subs (map fst ys) (w, b, rs) =
     (fst (foldl pick (w, b) ys), snd (foldl pick (w, b) ys),
      rs @ map (scored_entry sockets) ys)"
proof (induction ys arbitrary: w b rs)
  case Nil
  show ?case by simp
next
  case (Cons y ys)
  obtain i sub where y: "y = (i, sub)" by (cases y)
  have g: "obj_get subs i = Some sub"
    using Cons.prems y by (simp add: obj_get_distinct)
  have sub: "set ys \<subseteq> set subs" using Cons.prems by simp
  show ?case
    using Cons.IH [OF Cons.prems(1) sub] g y
    by (simp add: pick_def scored_entry_def)
qed

lemma find_mono:
  "find P xs = Some p \<Longrightarrow> (\<forall>q \<in> set xs. Q q \<longrightarrow> P q) \<Longrightarrow> Q p \<Longrightarrow> find Q xs = Some p"
  by (induction xs) (auto split: if_splits)

lemma find_snoc:
  "find P (xs @ [x]) =
     (case find P xs of None \<Rightarrow> (if P x then Some x else None) | Some y \<Rightarrow> Some y)"
  by (induction xs) auto

lemma find_holds: "find P xs = Some p \<Longrightarrow> P p"
  by (induction xs) (auto split: if_splits)

text \<open>
  The loop invariant: after the entries \<open>xs\<close>, \<^verbatim>\<open>winnerId\<close> is the first entry of
  \<open>xs\<close> that no entry of \<open>xs\<close> exceeds, and \<^verbatim>\<open>bestScore\<close> is its score.
\<close>

lemma foldl_pick:
  "\<forall>p \<in> set xs. score (snd p) \<noteq> NegInf \<Longrightarrow>
   (xs = [] \<and> foldl pick (None, NegInf) xs = (None, NegInf)) \<or>
   (\<exists>p. find (top_score xs) xs = Some p \<and>
        foldl pick (None, NegInf) xs = (Some (fst p), score (snd p)))"
proof (induction xs rule: rev_induct)
  case Nil
  show ?case by simp
next
  case (snoc x xs)
  have fin: "\<forall>p \<in> set xs. score (snd p) \<noteq> NegInf" and finx: "score (snd x) \<noteq> NegInf"
    using snoc.prems by simp_all
  have app: "foldl pick (None, NegInf) (xs @ [x]) = pick (foldl pick (None, NegInf) xs) x"
    by simp
  have "\<exists>p. find (top_score (xs @ [x])) (xs @ [x]) = Some p \<and>
            foldl pick (None, NegInf) (xs @ [x]) = (Some (fst p), score (snd p))"
    using snoc.IH [OF fin]
  proof
    assume "xs = [] \<and> foldl pick (None, NegInf) xs = (None, NegInf)"
    then have e: "xs = []" by simp
    have 1: "find (top_score (xs @ [x])) (xs @ [x]) = Some x"
      using e by (simp add: top_score_def js_le_refl)
    have 2: "foldl pick (None, NegInf) (xs @ [x]) = (Some (fst x), score (snd x))"
      using e finx by (simp add: pick_def js_gt_NegInf)
    from 1 2 show ?thesis by blast
  next
    assume "\<exists>p. find (top_score xs) xs = Some p \<and>
                foldl pick (None, NegInf) xs = (Some (fst p), score (snd p))"
    then obtain p where fp: "find (top_score xs) xs = Some p"
      and fo: "foldl pick (None, NegInf) xs = (Some (fst p), score (snd p))" by blast
    have top: "\<forall>q \<in> set xs. js_le (score (snd q)) (score (snd p))"
      using find_holds [OF fp] by (simp add: top_score_def)
    have unf: "foldl pick (None, NegInf) (xs @ [x]) = pick (Some (fst p), score (snd p)) x"
      using app by (simp only: fo)
    show ?thesis
    proof (cases "js_gt (score (snd x)) (score (snd p))")
      case True
      then have lt: "\<not> js_le (score (snd x)) (score (snd p))" by (simp add: js_gt_le)
      then have px: "js_le (score (snd p)) (score (snd x))" using js_le_total by blast
      have none: "find (top_score (xs @ [x])) xs = None"
      proof -
        have "\<not> top_score (xs @ [x]) q" if "q \<in> set xs" for q
        proof
          assume "top_score (xs @ [x]) q"
          then have "js_le (score (snd x)) (score (snd q))" by (simp add: top_score_def)
          moreover have "js_le (score (snd q)) (score (snd p))" using top that by simp
          ultimately show False using lt js_le_trans by blast
        qed
        then show ?thesis by (simp add: find_None_iff)
      qed
      have topx: "top_score (xs @ [x]) x"
        unfolding top_score_def
      proof
        fix q assume "q \<in> set (xs @ [x])"
        then have "q \<in> set xs \<or> q = x" by auto
        then show "js_le (score (snd q)) (score (snd x))"
          using top px js_le_trans js_le_refl by blast
      qed
      have 1: "find (top_score (xs @ [x])) (xs @ [x]) = Some x"
        using none topx by (simp add: find_snoc)
      have 2: "pick (Some (fst p), score (snd p)) x = (Some (fst x), score (snd x))"
        using True by (simp add: pick_def)
      from 1 2 unf show ?thesis by simp
    next
      case False
      then have le: "js_le (score (snd x)) (score (snd p))" by (simp add: js_gt_le)
      have b: "top_score (xs @ [x]) p" using top le by (simp add: top_score_def)
      have a: "\<forall>q \<in> set xs. top_score (xs @ [x]) q \<longrightarrow> top_score xs q"
        by (simp add: top_score_def)
      have "find (top_score (xs @ [x])) xs = Some p"
        using fp a b by (rule find_mono)
      then have 1: "find (top_score (xs @ [x])) (xs @ [x]) = Some p"
        by (simp add: find_snoc)
      have 2: "pick (Some (fst p), score (snd p)) x = (Some (fst p), score (snd p))"
        using False by (simp add: pick_def)
      from 1 2 unf show ?thesis by simp
    qed
  qed
  then show ?case by blast
qed

lemma foldl_pick_winner:
  assumes "\<forall>p \<in> set xs. score (snd p) \<noteq> NegInf"
  shows "fst (foldl pick (None, NegInf) xs) = spec_winner xs"
  using foldl_pick [OF assms] by (auto simp: spec_winner_def)

text \<open>
  C6, as stated, fails: when the second player disconnects while \<^verbatim>\<open>startGame\<close> is
  waiting for the embedding, \<^verbatim>\<open>endGame\<close> finds the round active and the target vector
  missing. It broadcasts the round-over event in its error form, with no results, and
  returns before the lines that clear: the target word is still set afterwards.
\<close>

theorem endGame_without_vector_counterexample:
  "effects_of trace_early_leave =
     [Unicast idA (AssignRole Player1), Unicast idA WaitingForPlayer,
      Unicast idB (AssignRole Player2), Request (GetEmbedding ''ocean''),
      Broadcast (PlayerLeft ''Player 2 disconnected. Game over.''),
      Broadcast (GameOverNoTarget ''Error determining winner: Missing target vector.'' [])] \<and>
   \<not> gameActive (state_after trace_early_leave) \<and>
   targetWord (state_after trace_early_leave) = Some ''ocean''"
  by (simp add: trace_early_leave_def handler_defs)

text \<open>
  C6, amended. \<^verbatim>\<open>endGame\<close> on an active round whose target vector is set, with no
  stored score equal to minus infinity (the scoring service answers in the range from
  -1 to 1): the winner is the one the specification names, the first stored entry whose
  score no stored entry exceeds; the text announces the role that id has in the role
  table, or the tie when there is no winner or the id has left the table; the results
  list has one scored entry per stored submission, in insertion order; the broadcast
  carries the target word; and the state left has the flag false and target word, target
  vector and submissions cleared. On an active round whose target vector is not set,
  \<^verbatim>\<open>endGame\<close> only clears the flag and broadcasts the error form of the round-over
  event with an empty results list.
\<close>

theorem endGame_winner_and_clear:
  assumes "gameActive s" and "targetVector s = Some v"
    and "distinct (obj_keys (playerSubmissions s))"
    and "\<forall>p \<in> set (playerSubmissions s). score (snd p) \<noteq> NegInf"
  shows "endGame s =
     (s\<lparr>gameActive := False, targetWord := None, targetVector := None, playerSubmissions := []\<rparr>,
      [Broadcast (GameOver
          (case spec_winner (playerSubmissions s) of
             None \<Rightarrow> ''It's a tie or no valid scores!''
           | Some w \<Rightarrow>
               (case obj_get (playerSockets s) w of
                  None \<Rightarrow> ''It's a tie or no valid scores!''
                | Some ro \<Rightarrow>
                    (if w = [] then ''It's a tie or no valid scores!''
                     else role_name ro @ '' wins!'')))
          (map (scored_entry (playerSockets s)) (playerSubmissions s))
          (targetWord s))])
   \<and> (gameActive t \<and> targetVector t = None \<longrightarrow>
        endGame t =
          (t\<lparr>gameActive := False\<rparr>,
           [Broadcast (GameOverNoTarget
              ''Error determining winner: Missing target vector.'' [])]))"
proof -
  have t: "tally (playerSockets s) (playerSubmissions s) (obj_keys (playerSubmissions s))
             (None, NegInf, []) =
           (spec_winner (playerSubmissions s),
            snd (foldl pick (None, NegInf) (playerSubmissions s)),
            map (scored_entry (playerSockets s)) (playerSubmissions s))"
    using tally_entries [of "playerSubmissions s" "playerSubmissions s" "playerSockets s"
                            None NegInf "[]"]
          assms(3) foldl_pick_winner [OF assms(4)]
    by (simp add: obj_keys_def)
  have m: "winnerMsg (playerSockets s) (spec_winner (playerSubmissions s)) =
          (case spec_winner (playerSubmissions s) of
             None \<Rightarrow> ''It's a tie or no valid scores!''
           | Some w \<Rightarrow>
               (case obj_get (playerSockets s) w of
                  None \<Rightarrow> ''It's a tie or no valid scores!''
                | Some ro \<Rightarrow>
                    (if w = [] then ''It's a tie or no valid scores!''
                     else role_name ro @ '' wins!'')))"
    by (simp add: winnerMsg_def Let_def split: option.splits)
  have one: "endGame s =
     (s\<lparr>gameActive := False, targetWord := None, targetVector := None, playerSubmissions := []\<rparr>,
      [Broadcast (GameOver (winnerMsg (playerSockets s) (spec_winner (playerSubmissions s)))
          (map (scored_entry (playerSockets s)) (playerSubmissions s))
          (targetWord s))])"
    using assms(1,2) by (simp add: endGame_def Let_def t)
  have two: "gameActive t \<and> targetVector t = None \<longrightarrow>
        endGame t =
          (t\<lparr>gameActive := False\<rparr>,
           [Broadcast (GameOverNoTarget
              ''Error determining winner: Missing target vector.'' [])])"
    by (simp add: endGame_def Let_def)
  show ?thesis using one two by (simp only: m)
qed

theorem endGame_winner_and_clear_witness:
  "gameActive tied \<and> targetVector tied = Some [1, 0, 0] \<and>
   spec_winner (playerSubmissions tied) = Some idB \<and>
   endGame tied =
     (playing\<lparr>gameActive := False, targetWord := None, targetVector := None\<rparr>,
      [Broadcast (GameOver ''Player 2 wins!''
         [\<lparr>res_role = ''Player 2'', res_expression = ''rock'', res_score = Fixed4 (Fin (1 / 2))\<rparr>,
          \<lparr>res_role = ''Player 1'', res_expression = ''sea'', res_score = Fixed4 (Fin (1 / 2))\<rparr>]
         (Some ''ocean''))]) \<and>
   gameActive starting \<and> targetVector starting = None \<and>
   endGame starting =
     (starting\<lparr>gameActive := False\<rparr>,
      [Broadcast (GameOverNoTarget ''Error determining winner: Missing target vector.'' [])])"
  using endGame_winner_and_clear [of tied "[1, 0, 0]" starting]
  by (simp add: tied_def starting_def playing_def spec_winner_def top_score_def scored_entry_def
                player_label_def obj_keys_def idA_def idB_def)


subsection \<open>A slot-holder leaves during a round\<close>

text \<open>
  C5, at the scenario of the specification: the first player has submitted, the second
  disconnects before submitting. The round-over broadcast names the first player the
  winner, and its results list has the first player's entry and nothing for the second
  player, who held a slot in that round: \<^verbatim>\<open>endGame\<close> goes through the keys of the
  stored submissions, so its branch for a participant without submission is never taken.
\<close>

theorem leaver_missing_from_results:
  "effects_of trace_leave =
     [Unicast idA (AssignRole Player1), Unicast idA WaitingForPlayer,
      Unicast idB (AssignRole Player2), Request (GetEmbedding ''ocean''),
      Broadcast (GameStart (Some ''ocean'') [(idA, Player1), (idB, Player2)]),
      Request (CalculateVector ''sea''),
      Request (CompareToTarget (Some ''ocean'') [9 / 10, 1 / 10, 0]),
      Broadcast (PlayerSubmitted Player1 ''sea''),
      Broadcast (PlayerLeft ''Player 2 disconnected. Game over.''),
      Broadcast (GameOver ''Player 1 wins!''
        [\<lparr>res_role = ''Player 1'', res_expression = ''sea'',
          res_score = Fixed4 (Fin (81 / 100))\<rparr>]
        (Some ''ocean''))]"
  by (simp add: trace_leave_def handler_defs)

subsection \<open>Replies that arrive late\<close>




end
